theory Spec2Isabelle
  imports Main
begin

section \<open>Strings and numbers of the script\<close>

text \<open>
  \<^verbatim>\<open>generate-image.ts\<close> is a Node script. Its strings are modelled as \<open>string\<close>, a list of
  8-bit code units: command-line arguments and API strings whose code units are all below
  256. Its numbers are the integers \<open>parseInt\<close> produces, modelled as \<open>int\<close>.
\<close>

definition startsWith :: "string \<Rightarrow> string \<Rightarrow> bool" where
  \<comment> \<open>\<^verbatim>\<open>s.startsWith(p)\<close>\<close>
  "startsWith s p = (take (length p) s = p)"

fun includesStr :: "string \<Rightarrow> string \<Rightarrow> bool" where
  \<comment> \<open>\<^verbatim>\<open>s.includes(sub)\<close> on strings: \<open>sub\<close> occurs at some position of \<open>s\<close>\<close>
  "includesStr [] sub = (sub = [])"
| "includesStr (c # cs) sub = (startsWith (c # cs) sub \<or> includesStr cs sub)"

definition digitChar :: "nat \<Rightarrow> char" where
  "digitChar d = char_of (48 + d)"

fun showNat :: "nat \<Rightarrow> string" where
  \<comment> \<open>decimal digits of a natural number, as a template literal prints them\<close>
  "showNat n = (if n < 10 then [digitChar n] else showNat (n div 10) @ [digitChar (n mod 10)])"

declare showNat.simps [simp del]

definition showInt :: "int \<Rightarrow> string" where
  \<comment> \<open>\<^verbatim>\<open>`${n}`\<close> for an integral number \<open>n\<close>\<close>
  "showInt n = (if n < 0 then CHR ''-'' # showNat (nat (- n)) else showNat (nat n))"

subsection \<open>\<^verbatim>\<open>parseInt\<close> with no radix argument\<close>

definition isWhiteSpace :: "char \<Rightarrow> bool" where
  \<comment> \<open>the white space and line terminators of ECMAScript below code unit 256:
      TAB, LF, VT, FF, CR, SP, NBSP\<close>
  "isWhiteSpace c = ((of_char c :: nat) \<in> {9, 10, 11, 12, 13, 32, 160})"

definition digitValue :: "char \<Rightarrow> nat option" where
  \<comment> \<open>value of a digit \<open>0-9\<close>, \<open>a-z\<close>, \<open>A-Z\<close>\<close>
  "digitValue c =
     (let n = (of_char c :: nat)
      in if 48 \<le> n \<and> n \<le> 57 then Some (n - 48)
         else if 97 \<le> n \<and> n \<le> 122 then Some (n - 87)
         else if 65 \<le> n \<and> n \<le> 90 then Some (n - 55)
         else None)"

definition isRadixDigit :: "nat \<Rightarrow> char \<Rightarrow> bool" where
  "isRadixDigit R c = (case digitValue c of None \<Rightarrow> False | Some d \<Rightarrow> d < R)"

definition digitsValue :: "nat \<Rightarrow> string \<Rightarrow> int" where
  "digitsValue R Z = foldl (\<lambda>acc c. acc * int R + int (case digitValue c of None \<Rightarrow> 0 | Some d \<Rightarrow> d)) 0 Z"

definition parseDigits :: "nat \<Rightarrow> int \<Rightarrow> string \<Rightarrow> int option" where
  \<comment> \<open>the longest prefix of radix-\<open>R\<close> digits; \<open>None\<close> is \<open>NaN\<close>\<close>
  "parseDigits R sign S =
     (let Z = takeWhile (isRadixDigit R) S
      in if Z = [] then None else Some (sign * digitsValue R Z))"

definition parseIntStr :: "string \<Rightarrow> int option" where
  \<comment> \<open>ECMAScript \<open>parseInt(string)\<close>: leading white space is dropped, then an optional
      sign, then an optional \<open>0x\<close>/\<open>0X\<close> (radix 16, else radix 10), then digits.
      \<open>None\<close> is \<open>NaN\<close>. The rounding of huge values to a double is not modelled:
      it keeps the order with respect to 1 and 4, the only use the script makes of it.\<close>
  "parseIntStr inputString =
     (let S = dropWhile isWhiteSpace inputString;
          sign = (if startsWith S ''-'' then - 1 else 1);
          S = (if startsWith S ''+'' \<or> startsWith S ''-'' then drop 1 S else S)
      in if startsWith S ''0x'' \<or> startsWith S ''0X''
         then parseDigits 16 sign (drop 2 S)
         else parseDigits 10 sign S)"

definition parseInt :: "string option \<Rightarrow> int option" where
  \<comment> \<open>the argument may be \<open>undefined\<close> (\<open>None\<close>), which reads as the string \<open>undefined\<close>\<close>
  "parseInt a = (case a of None \<Rightarrow> parseIntStr ''undefined'' | Some s \<Rightarrow> parseIntStr s)"

definition orElse1 :: "int option \<Rightarrow> int" where
  \<comment> \<open>\<^verbatim>\<open>x || 1\<close> on a number: \<open>NaN\<close> and \<open>0\<close> are falsy\<close>
  "orElse1 x = (case x of None \<Rightarrow> 1 | Some n \<Rightarrow> if n = 0 then 1 else n)"

section \<open>Command-line options\<close>

definition VALID_ASPECT_RATIOS :: "string list" where
  "VALID_ASPECT_RATIOS =
     [''1:1'', ''16:9'', ''9:16'', ''3:2'', ''2:3'',
      ''4:3'', ''3:4'', ''4:5'', ''5:4'', ''21:9'']"

text \<open>
  \<^verbatim>\<open>interface Options\<close>. The fields \<open>outputDir\<close> and \<open>name\<close> are declared \<open>string\<close>, but
  \<open>parseArgs\<close> stores \<^verbatim>\<open>args[++i]\<close> in them, which is \<open>undefined\<close> when the flag is the last
  argument: they are \<open>string option\<close>, \<open>None\<close> for \<open>undefined\<close>.
\<close>

record Options =
  prompt :: string
  count :: int
  aspectRatio :: string
  outputDir :: "string option"
  name :: "string option"

text \<open>What \<^verbatim>\<open>console.error\<close> prints, one constructor for each call in the script.\<close>

datatype stderr_line =
    UsageLine               \<comment> \<open>\<^verbatim>\<open>Usage: npx tsx generate-image.ts "your prompt" [options]\<close>\<close>
  | PromptRequiredLine      \<comment> \<open>\<^verbatim>\<open>Error: Prompt is required\<close>\<close>
  | ErrorLine string        \<comment> \<open>the \<^verbatim>\<open>Error:\<close> line of \<open>main\<close>, with the message printed\<close>
  | EnvFileHintLine         \<comment> \<open>\<^verbatim>\<open>Create .env file with: GEMINI_API_KEY=your_key_here\<close>\<close>
  | GetKeyHintLine          \<comment> \<open>\<^verbatim>\<open>Get key at: https://aistudio.google.com/apikey\<close>\<close>

definition defaultOptions :: "string \<Rightarrow> Options" where
  \<comment> \<open>the initial \<open>options\<close> object; the argument is
      \<^verbatim>\<open>path.join(process.cwd(), "generated-images")\<close>\<close>
  "defaultOptions dir =
     \<lparr>prompt = '''', count = 1, aspectRatio = ''16:9'', outputDir = Some dir, name = Some ''''\<rparr>"

definition nextArg :: "string list \<Rightarrow> string option" where
  \<comment> \<open>\<^verbatim>\<open>args[++i]\<close>: the argument after the flag, \<open>undefined\<close> past the end\<close>
  "nextArg rest = (case rest of [] \<Rightarrow> None | v # _ \<Rightarrow> Some v)"

definition countOf :: "string option \<Rightarrow> int" where
  \<comment> \<open>\<^verbatim>\<open>Math.min(4, Math.max(1, parseInt(args[++i]) || 1))\<close>\<close>
  "countOf a = min 4 (max 1 (orElse1 (parseInt a)))"

fun parseLoop :: "string list \<Rightarrow> Options \<Rightarrow> Options" where
  \<comment> \<open>the \<open>for\<close> loop of \<open>parseArgs\<close> over the arguments from index \<open>i\<close> on\<close>
  "parseLoop [] options = options"
| "parseLoop (arg # rest) options =
     (if arg = ''--count'' then
        parseLoop (drop 1 rest) (options\<lparr>count := countOf (nextArg rest)\<rparr>)
      else if arg = ''--ratio'' then
        parseLoop (drop 1 rest)
          (case nextArg rest of
             None \<Rightarrow> options            \<comment> \<open>\<open>includes(undefined)\<close> is false\<close>
           | Some ratio \<Rightarrow>
               if ratio \<in> set VALID_ASPECT_RATIOS
               then options\<lparr>aspectRatio := ratio\<rparr> else options)
      else if arg = ''--output'' then
        parseLoop (drop 1 rest) (options\<lparr>outputDir := nextArg rest\<rparr>)
      else if arg = ''--name'' then
        parseLoop (drop 1 rest) (options\<lparr>name := nextArg rest\<rparr>)
      else if \<not> startsWith arg ''--'' then
        parseLoop rest (options\<lparr>prompt := arg\<rparr>)
      else parseLoop rest options)"

fun ratioValues :: "string list \<Rightarrow> string list" where
  \<comment> \<open>the values that the loop of \<open>parseArgs\<close> reads into \<open>ratio\<close>, in order: the
      argument after each \<^verbatim>\<open>--ratio\<close> that the loop meets as a flag\<close>
  "ratioValues [] = []"
| "ratioValues (arg # rest) =
     (if arg = ''--count'' then ratioValues (drop 1 rest)
      else if arg = ''--ratio'' then
        (case nextArg rest of None \<Rightarrow> [] | Some ratio \<Rightarrow> [ratio]) @ ratioValues (drop 1 rest)
      else if arg = ''--output'' then ratioValues (drop 1 rest)
      else if arg = ''--name'' then ratioValues (drop 1 rest)
      else ratioValues rest)"

definition parseArgs :: "string \<Rightarrow> string list \<Rightarrow> stderr_line list \<times> (nat + Options)" where
  \<comment> \<open>\<open>args\<close> is \<^verbatim>\<open>process.argv.slice(2)\<close>. The result is what was printed with
      \<open>console.error\<close>, and either the status of \<open>process.exit\<close> or the options returned.\<close>
  "parseArgs dir args =
     (if length args = 0 then ([UsageLine], Inl 1)
      else let options = parseLoop args (defaultOptions dir)
           in if prompt options = [] then ([PromptRequiredLine], Inl 1)
              else ([], Inr options))"


section \<open>The image-generation call\<close>

subsection \<open>Thrown values\<close>

text \<open>
  A JavaScript \<open>throw\<close> carries either an instance of \<open>Error\<close>, modelled by the name of its
  class and its message, or some other value \<open>v\<close>, modelled by \<open>String(v)\<close>. The script
  itself only ever constructs \<^verbatim>\<open>new Error(message)\<close>; Node's \<open>path\<close> and \<open>Buffer\<close> throw a
  \<open>TypeError\<close> on \<open>undefined\<close>; what the API client or the file system throws is a
  parameter of the model.
\<close>

datatype thrown =
    JsError string string
  | NonError string

fun instanceofError :: "thrown \<Rightarrow> bool" where
  "instanceofError (JsError cls msg) = True"
| "instanceofError (NonError v) = False"

fun errorClass :: "thrown \<Rightarrow> string option" where
  "errorClass (JsError cls msg) = Some cls"
| "errorClass (NonError v) = None"

fun errorText :: "thrown \<Rightarrow> string" where
  \<comment> \<open>\<^verbatim>\<open>error instanceof Error ? error.message : String(error)\<close>\<close>
  "errorText (JsError cls msg) = msg"
| "errorText (NonError v) = v"

definition isGenerationError :: "thrown \<Rightarrow> bool" where
  \<comment> \<open>Modelled from the spec: an error object of the class \<open>GenerationError\<close>, which
      the specification names and the script does not declare\<close>
  "isGenerationError e = (errorClass e = Some ''GenerationError'')"

definition noApiKeyError :: thrown where
  "noApiKeyError = JsError ''Error'' ''GEMINI_API_KEY not found in .env file''"

definition noImagesError :: thrown where
  "noImagesError = JsError ''Error''
     ''No images were generated. The model may have refused or encountered an issue.''"

definition pathTypeError :: thrown where
  \<comment> \<open>\<^verbatim>\<open>path.resolve(undefined)\<close>\<close>
  "pathTypeError = JsError ''TypeError''
     (''The '' @ [CHR 0x22] @ ''paths[0]'' @ [CHR 0x22]
       @ '' argument must be of type string. Received undefined'')"

definition propertyTypeError :: "string \<Rightarrow> thrown" where
  \<comment> \<open>reading a property of \<open>undefined\<close>\<close>
  "propertyTypeError prop = JsError ''TypeError''
     (''Cannot read properties of undefined (reading '' @ [CHR 0x27] @ prop @ [CHR 0x27] @ '')'')"

definition bufferTypeError :: thrown where
  \<comment> \<open>\<^verbatim>\<open>Buffer.from(undefined, "base64")\<close>\<close>
  "bufferTypeError = JsError ''TypeError''
     (''The first argument must be of type string or an instance of Buffer, ArrayBuffer, ''
       @ ''or Array or an Array-like Object. Received undefined'')"

subsection \<open>Requests and responses of \<^verbatim>\<open>ai.models.generateContent\<close>\<close>

text \<open>
  The types of the \<^verbatim>\<open>@google/genai\<close> client, whose declarations are not part of the
  script: a response has optional candidates, a candidate an optional content, a content
  optional parts; a part has an optional text and an optional inline blob, whose MIME
  type and base64 data are optional too.
\<close>

record Blob =
  mimeType :: "string option"
  data :: "string option"

record Part =
  partText :: "string option"
  inlineData :: "Blob option"

record Content =
  parts :: "Part list option"

record Candidate =
  content :: "Content option"

record GenerateContentResponse =
  candidates :: "Candidate list option"

text \<open>
  Modelled from the spec: the image capability takes a prompt text and reference images.
  For the client, whose declarations are not part of the script, the \<open>contents\<close> of a
  request are a string or a list of parts; reference images would travel as inline blobs
  among the parts.
\<close>

datatype ContentListUnion =
    ContentString string
  | ContentParts "Part list"

record GenerateContentParameters =
  model :: string
  contents :: ContentListUnion
  responseModalities :: "string list"
  imageConfigAspectRatio :: string

fun referenceImages :: "ContentListUnion \<Rightarrow> Blob list" where
  \<comment> \<open>the inline blobs a request carries beside its text\<close>
  "referenceImages (ContentString s) = []"
| "referenceImages (ContentParts ps) = List.map_filter inlineData ps"

subsection \<open>The host: environment, API, clock, paths, file system\<close>

text \<open>
  Everything \<open>generateImages\<close> reads from outside. \<open>generateContent h k\<close> is the answer of
  the API to the \<open>k\<close>-th call made (from 0), a thrown value when the promise rejects.
  \<open>mkdirSync\<close> and \<open>writeFileSync\<close> give what the operation throws, \<open>None\<close> when it succeeds.
\<close>

record Host =
  GEMINI_API_KEY :: "string option"
  generateContent :: "nat \<Rightarrow> GenerateContentParameters \<Rightarrow> thrown + GenerateContentResponse"
  dateNow :: int
  pathResolve :: "string \<Rightarrow> string"
  pathJoin :: "string \<Rightarrow> string \<Rightarrow> string"
  existsSync :: "string \<Rightarrow> bool"
  mkdirSync :: "string \<Rightarrow> thrown option"
  writeFileSync :: "string \<Rightarrow> string \<Rightarrow> thrown option"

text \<open>
  What \<open>generateImages\<close> does to the outside: the requests sent to the API, the directories
  created, and the files written (path and base64 text of the bytes), each in order.
  Output on \<open>console.log\<close> is not modelled.
\<close>

record Effects =
  requests :: "GenerateContentParameters list"
  created :: "string list"
  written :: "(string \<times> string) list"

subsection \<open>\<open>generateImages\<close>\<close>

definition apiPromptOf :: "Options \<Rightarrow> string" where
  "apiPromptOf options =
     (if count options > 1
      then ''Generate '' @ showInt (count options) @ '' different variations of: '' @ prompt options
      else prompt options)"

definition requestOf :: "Options \<Rightarrow> GenerateContentParameters" where
  "requestOf options =
     \<lparr>model = ''gemini-3-pro-image-preview'',
      contents = ContentString (apiPromptOf options),
      responseModalities = [''Text'', ''Image''],
      imageConfigAspectRatio = aspectRatio options\<rparr>"

definition responseParts :: "GenerateContentResponse \<Rightarrow> Part list" where
  \<comment> \<open>\<^verbatim>\<open>result.candidates?.[0]?.content?.parts || []\<close>\<close>
  "responseParts result =
     (case candidates result of
        None \<Rightarrow> []
      | Some [] \<Rightarrow> []
      | Some (c # _) \<Rightarrow>
          (case content c of
             None \<Rightarrow> []
           | Some ct \<Rightarrow> (case parts ct of None \<Rightarrow> [] | Some ps \<Rightarrow> ps)))"

definition isImagePart :: "Part \<Rightarrow> bool" where
  \<comment> \<open>\<^verbatim>\<open>part.inlineData?.mimeType?.startsWith("image/")\<close>\<close>
  "isImagePart part =
     (case inlineData part of
        None \<Rightarrow> False
      | Some b \<Rightarrow> (case mimeType b of None \<Rightarrow> False | Some m \<Rightarrow> startsWith m ''image/''))"

definition partMime :: "Part \<Rightarrow> string" where
  \<comment> \<open>\<^verbatim>\<open>part.inlineData.mimeType\<close> of a part that has one\<close>
  "partMime part =
     (case inlineData part of
        None \<Rightarrow> []
      | Some b \<Rightarrow> (case mimeType b of None \<Rightarrow> [] | Some m \<Rightarrow> m))"

definition isTextPart :: "Part \<Rightarrow> bool" where
  \<comment> \<open>\<^verbatim>\<open>part.text\<close> as a condition: a non-empty string\<close>
  "isTextPart part = (case partText part of None \<Rightarrow> False | Some t \<Rightarrow> t \<noteq> [])"

definition imagePartsOf :: "GenerateContentResponse \<Rightarrow> Part list" where
  "imagePartsOf result = filter isImagePart (responseParts result)"

definition textPartsOf :: "GenerateContentResponse \<Rightarrow> Part list" where
  "textPartsOf result = filter isTextPart (responseParts result)"

definition baseNameOf :: "Host \<Rightarrow> Options \<Rightarrow> string" where
  \<comment> \<open>\<^verbatim>\<open>options.name || `beach-party-${timestamp}`\<close>\<close>
  "baseNameOf h options =
     (case name options of
        None \<Rightarrow> ''beach-party-'' @ showInt (dateNow h)
      | Some n \<Rightarrow> if n = [] then ''beach-party-'' @ showInt (dateNow h) else n)"

definition extOf :: "string \<Rightarrow> string" where
  \<comment> \<open>\<^verbatim>\<open>mimeType.includes("png") ? "png" : "jpg"\<close>\<close>
  "extOf m = (if includesStr m ''png'' then ''png'' else ''jpg'')"

definition filenameOf :: "string \<Rightarrow> nat \<Rightarrow> nat \<Rightarrow> string \<Rightarrow> string" where
  \<comment> \<open>\<open>len\<close> is \<^verbatim>\<open>imageParts.length\<close>, \<open>i\<close> the loop index\<close>
  "filenameOf baseName len i ext =
     (if len > 1 then baseName @ ''-'' @ showNat (i + 1) @ ''.'' @ ext
      else baseName @ ''.'' @ ext)"

fun saveLoop ::
  "Host \<Rightarrow> Options \<Rightarrow> string \<Rightarrow> nat \<Rightarrow> nat \<Rightarrow> Part list \<Rightarrow> string list \<Rightarrow> (string \<times> string) list
     \<Rightarrow> (thrown + string list) \<times> (string \<times> string) list" where
  \<comment> \<open>the \<open>for\<close> loop over \<open>imageParts\<close> from index \<open>i\<close> on; \<open>rest\<close> are the parts from
      \<open>i\<close>, \<open>savedPaths\<close> and \<open>written\<close> what was pushed and written before\<close>
  "saveLoop h options outDir len i [] savedPaths wr = (Inr savedPaths, wr)"
| "saveLoop h options outDir len i (part # rest) savedPaths wr =
     (case inlineData part of
        None \<Rightarrow> (Inl (propertyTypeError ''data''), wr)
      | Some b \<Rightarrow>
          (case mimeType b of
             None \<Rightarrow> (Inl (propertyTypeError ''includes''), wr)
           | Some m \<Rightarrow>
               (let filename = filenameOf (baseNameOf h options) len i (extOf m);
                    filepath = pathJoin h outDir filename
                in case data b of
                     None \<Rightarrow> (Inl bufferTypeError, wr)
                   | Some imageData \<Rightarrow>
                       (case writeFileSync h filepath imageData of
                          Some e \<Rightarrow> (Inl e, wr)
                        | None \<Rightarrow>
                            saveLoop h options outDir len (Suc i) rest
                              (savedPaths @ [filepath]) (wr @ [(filepath, imageData)])))))"

definition handleResponse ::
  "Host \<Rightarrow> Options \<Rightarrow> GenerateContentResponse \<Rightarrow> Effects \<Rightarrow> (thrown + string list) \<times> Effects" where
  \<comment> \<open>\<open>generateImages\<close> from the line after the API call returned \<open>result\<close>\<close>
  "handleResponse h options result eff =
     (case outputDir options of
        None \<Rightarrow> (Inl pathTypeError, eff)
      | Some d \<Rightarrow>
          (let outDir = pathResolve h d in
           case (if existsSync h outDir then None else mkdirSync h outDir) of
             Some e \<Rightarrow> (Inl e, eff)
           | None \<Rightarrow>
               (let eff = (if existsSync h outDir then eff else eff\<lparr>created := created eff @ [outDir]\<rparr>);
                    imageParts = imagePartsOf result
                in if length imageParts = 0 then (Inl noImagesError, eff)
                   else (case saveLoop h options outDir (length imageParts) 0 imageParts [] (written eff) of
                           (r, wr) \<Rightarrow> (r, eff\<lparr>written := wr\<rparr>)))))"

definition apiKeyMissing :: "Host \<Rightarrow> bool" where
  \<comment> \<open>\<^verbatim>\<open>!apiKey\<close>: the variable is unset or empty\<close>
  "apiKeyMissing h = (case GEMINI_API_KEY h of None \<Rightarrow> True | Some k \<Rightarrow> k = [])"

definition generateImages :: "Host \<Rightarrow> Options \<Rightarrow> (thrown + string list) \<times> Effects" where
  "generateImages h options =
     (let none = \<lparr>requests = [], created = [], written = []\<rparr> in
      if apiKeyMissing h
      then (Inl noApiKeyError, none)
      else (let request = requestOf options;
                eff = none\<lparr>requests := [request]\<rparr>
            in case generateContent h 0 request of
                 Inl e \<Rightarrow> (Inl e, eff)
               | Inr result \<Rightarrow> handleResponse h options result eff))"

definition main :: "Host \<Rightarrow> string \<Rightarrow> string list \<Rightarrow> stderr_line list \<times> nat" where
  \<comment> \<open>what \<open>main\<close> prints with \<open>console.error\<close> and the exit status of the process;
      \<open>process.exit\<close> inside \<open>parseArgs\<close> ends the process at once\<close>
  "main h dir args =
     (case parseArgs dir args of
        (err, Inl status) \<Rightarrow> (err, status)
      | (err, Inr options) \<Rightarrow>
          (case fst (generateImages h options) of
             Inr savedPaths \<Rightarrow> (err, 0)
           | Inl error \<Rightarrow>
               (err @ [ErrorLine (errorText error)]
                  @ (if instanceofError error \<and> includesStr (errorText error) ''GEMINI_API_KEY''
                     then [EnvFileHintLine, GetKeyHintLine] else []),
                1)))"

section \<open>Pairing engine and conference state machine\<close>

text \<open>
  The bot that draws the pairs and runs the press conferences is not among the source
  files at hand; only the image script is. Every definition of this section is modelled
  from the specification and says which missing code it stands for.
\<close>

subsection \<open>Fighters and the draw\<close>

text \<open>
  Modelled from the spec: the Fighter of the data model, which the missing registry code
  would hold (stable code, display name, description, owner and rooster image handles).
\<close>

record Fighter =
  code :: string
  displayName :: string
  description :: string
  ownerImage :: string
  roosterImage :: string

text \<open>
  Modelled from the spec: the error of the missing \<open>PairingEngine.draw\<close>, raised when the
  input is not exactly six fighters.
\<close>

datatype PairingError = InsufficientFightersError

text \<open>
  Modelled from the spec: the exchange of two positions, the step of the shuffle of the
  missing \<open>PairingEngine\<close>.
\<close>

definition swap :: "nat \<Rightarrow> nat \<Rightarrow> 'a list \<Rightarrow> 'a list" where
  "swap i j xs = xs[i := xs ! j, j := xs ! i]"

text \<open>
  Modelled from the spec: the shuffle of the missing \<open>PairingEngine\<close>, "a uniform
  Fisher-Yates-equivalent permutation" driven by the supplied random source. The source
  is a function \<open>rng\<close>: at position \<open>i\<close> it yields a number, reduced to \<open>0..i\<close>, and the
  elements at \<open>i\<close> and at that index are exchanged, for \<open>i\<close> from the last position down
  to 1.
\<close>

fun shuffleFrom :: "(nat \<Rightarrow> nat) \<Rightarrow> nat \<Rightarrow> 'a list \<Rightarrow> 'a list" where
  "shuffleFrom rng 0 xs = xs"
| "shuffleFrom rng (Suc i) xs = shuffleFrom rng i (swap (Suc i) (rng (Suc i) mod Suc (Suc i)) xs)"

text \<open>
  Modelled from the spec: the whole shuffle of the missing \<open>PairingEngine\<close>, from the last
  position of the sequence.
\<close>

definition shuffle :: "(nat \<Rightarrow> nat) \<Rightarrow> 'a list \<Rightarrow> 'a list" where
  "shuffle rng xs = shuffleFrom rng (length xs - 1) xs"

text \<open>
  Modelled from the spec: \<open>PairingEngine.draw\<close>, code that is missing. "Shuffle the
  6-element sequence with the supplied random source, then partition into consecutive
  pairs (indices 0-1, 2-3, 4-5). Fails with InsufficientFightersError if the input is not
  exactly 6 elements."
\<close>

definition draw :: "Fighter list \<Rightarrow> (nat \<Rightarrow> nat) \<Rightarrow> PairingError + (Fighter \<times> Fighter) list" where
  "draw fighters rng =
     (if length fighters \<noteq> 6 then Inl InsufficientFightersError
      else let s = shuffle rng fighters
           in Inr [(s ! 0, s ! 1), (s ! 2, s ! 3), (s ! 4, s ! 5)])"

text \<open>
  Modelled from the spec: the fighters that a Pairing of the missing \<open>PairingEngine\<close>
  covers, pair after pair.
\<close>

definition members :: "(Fighter \<times> Fighter) list \<Rightarrow> Fighter list" where
  "members prs = concat (map (\<lambda>(a, b). [a, b]) prs)"

subsection \<open>Slots, conference state, session\<close>

text \<open>
  Modelled from the spec: the status of a Slot in the data model of the missing
  \<open>ConferenceStateMachine\<close>.
\<close>

datatype SlotStatus = Pending | Generated | Failed

text \<open>
  Modelled from the spec: the Artifact of the data model of the missing
  \<open>ConferenceStateMachine\<close>, "{text: string, image: optional byte blob, usedFallback:
  bool}".
\<close>

record Artifact =
  artifactText :: string
  image :: "string option"
  usedFallback :: bool

text \<open>
  Modelled from the spec: the Slot of the data model of the missing
  \<open>ConferenceStateMachine\<close>: round number, speaker, status and, once resolved, the artifact.
\<close>

record Slot =
  roundNumber :: nat
  speaker :: Fighter
  status :: SlotStatus
  artifact :: "Artifact option"

text \<open>
  Modelled from the spec: the identity of one of the three pairs, the \<open>pairId\<close> that the
  missing \<open>advance\<close> takes.
\<close>

datatype PairId = Pair0 | Pair1 | Pair2

text \<open>
  Modelled from the spec: the position, in the Pairing, of the pair that a \<open>pairId\<close> of the
  missing \<open>ConferenceStateMachine\<close> names.
\<close>

fun pairIndex :: "PairId \<Rightarrow> nat" where
  "pairIndex Pair0 = 0"
| "pairIndex Pair1 = 1"
| "pairIndex Pair2 = 2"

text \<open>
  Modelled from the spec: the Session of the missing \<open>SessionStore\<close>, "{FighterRegistry
  snapshot, optional Pairing, mapping from pair identity to ConferenceState}"; the
  conference state of a pair, its list of slots, is \<open>None\<close> while the conference is not
  started.
\<close>

record Session =
  registry :: "Fighter list"
  pairing :: "(Fighter \<times> Fighter) list option"
  conferences :: "PairId \<Rightarrow> Slot list option"

text \<open>
  Modelled from the spec: the lookup of a pair of the Pairing by its identity, in the
  missing \<open>ConferenceStateMachine\<close>; \<open>None\<close> when the pairing holds no such pair.
\<close>

definition pairOf :: "(Fighter \<times> Fighter) list \<Rightarrow> PairId \<Rightarrow> (Fighter \<times> Fighter) option" where
  "pairOf prs pid = (if pairIndex pid < length prs then Some (prs ! pairIndex pid) else None)"

text \<open>
  Modelled from the spec: slot \<open>k\<close> of a pair \<open>(a, b)\<close> before it is resolved, in the missing
  \<open>ConferenceStateMachine\<close>: "speaker alternates A,B,A,B,A,B across the 6 slots", three
  rounds of two.
\<close>

definition pendingSlot :: "Fighter \<Rightarrow> Fighter \<Rightarrow> nat \<Rightarrow> Slot" where
  "pendingSlot a b k =
     \<lparr>roundNumber = k div 2, speaker = (if even k then a else b),
      status = Pending, artifact = None\<rparr>"

text \<open>
  Modelled from the spec: the conference state of a pair in the state NotStarted of the
  missing \<open>ConferenceStateMachine\<close>, its six slots pending.
\<close>

definition newConference :: "Fighter \<Rightarrow> Fighter \<Rightarrow> Slot list" where
  "newConference a b = map (pendingSlot a b) [0..<6]"

subsection \<open>The generation gateway as the state machine sees it\<close>

text \<open>
  Modelled from the spec: the error of the missing \<open>GenerationGateway\<close>, a
  \<open>GenerationError\<close> "tagged with one of {Transient, Refused, Unknown}".
\<close>

datatype GenerationError = Transient | Refused | Unknown

text \<open>
  Modelled from the spec: the prompt context that the missing \<open>advance\<close> builds,
  "referencing speaker fighter, opponent fighter, round number".
\<close>

record PromptContext =
  ctxSpeaker :: Fighter
  ctxOpponent :: Fighter
  ctxRound :: nat

text \<open>
  Modelled from the spec: the interface of the missing \<open>GenerationGateway\<close>,
  \<open>generateText(promptContext)\<close> and \<open>generateImage(promptContext, referenceAssets)\<close>, each
  giving a result or a \<open>GenerationError\<close>. A value of \<open>Gateway\<close> is the behaviour of the
  gateway during one call of \<open>advance\<close>; it may differ from call to call.
\<close>

record Gateway =
  generateText :: "PromptContext \<Rightarrow> GenerationError + string"
  generateImage :: "PromptContext \<Rightarrow> string list \<Rightarrow> GenerationError + string"

text \<open>
  Modelled from the spec: a call that the missing \<open>advance\<close> makes to the gateway, recorded
  to tell whether content was generated.
\<close>

datatype GatewayCall =
    TextCall PromptContext
  | ImageCall PromptContext "string list"

text \<open>
  Modelled from the spec: the errors of the missing \<open>advance\<close>: no pairing drawn, the
  conference already complete, or the failure of text generation, which is surfaced.
\<close>

datatype ConferenceError =
    PairingNotDrawnError
  | ConferenceCompleteError
  | TextGenerationFailed GenerationError

subsection \<open>\<open>advance\<close>\<close>

text \<open>
  Modelled from the spec: the terminal slots of the missing \<open>ConferenceStateMachine\<close>,
  resolved for good: generated, with the image or with the text-only fallback. A slot
  whose text failed is not terminal: "retry re-attempts the same slot, not the next one".
\<close>

definition isTerminal :: "Slot \<Rightarrow> bool" where
  "isTerminal slot = (status slot = Generated)"

text \<open>
  Modelled from the spec: the state Complete of the missing \<open>ConferenceStateMachine\<close>, "all
  6 slots are terminal".
\<close>

definition isComplete :: "Slot list \<Rightarrow> bool" where
  "isComplete slots = list_all isTerminal slots"

text \<open>
  Modelled from the spec: step 3 of the missing \<open>advance\<close>, the next slot in strict order:
  the first that is not terminal.
\<close>

definition nextIndex :: "Slot list \<Rightarrow> nat" where
  "nextIndex slots = length (takeWhile isTerminal slots)"

text \<open>
  Modelled from the spec: step 4 of the missing \<open>advance\<close>, "the reference assets of both
  fighters in the current pair".
\<close>

definition referenceAssets :: "Fighter \<Rightarrow> Fighter \<Rightarrow> string list" where
  "referenceAssets a b = [ownerImage a, roosterImage a, ownerImage b, roosterImage b]"

text \<open>
  Modelled from the spec: the conference state of the pair \<open>(a, b)\<close> that the missing
  \<open>advance\<close> reads from the session; a conference not started has its six slots pending.
\<close>

definition conferenceOf :: "Session \<Rightarrow> PairId \<Rightarrow> Fighter \<Rightarrow> Fighter \<Rightarrow> Slot list" where
  "conferenceOf session pid a b =
     (case conferences session pid of None \<Rightarrow> newConference a b | Some slots \<Rightarrow> slots)"

text \<open>
  Modelled from the spec: step 4 of the missing \<open>advance\<close>, the prompt context of a slot:
  its speaker, the other fighter of the pair, its round.
\<close>

definition contextFor :: "Fighter \<Rightarrow> Fighter \<Rightarrow> Slot \<Rightarrow> PromptContext" where
  "contextFor a b slot =
     \<lparr>ctxSpeaker = speaker slot,
      ctxOpponent = (if speaker slot = a then b else a),
      ctxRound = roundNumber slot\<rparr>"

text \<open>
  Modelled from the spec: step 6 of the missing \<open>advance\<close>, the artifact of a slot whose
  text is \<open>t\<close>: with the image, or, "on any GenerationError", text-only with
  \<open>usedFallback=true\<close> and \<open>image=None\<close>.
\<close>

definition artifactOf :: "string \<Rightarrow> GenerationError + string \<Rightarrow> Artifact" where
  "artifactOf t r =
     (case r of
        Inl e \<Rightarrow> \<lparr>artifactText = t, image = None, usedFallback = True\<rparr>
      | Inr img \<Rightarrow> \<lparr>artifactText = t, image = Some img, usedFallback = False\<rparr>)"

text \<open>
  Modelled from the spec: step 7 of the missing \<open>advance\<close>, the session with slot \<open>i\<close> of the
  pair's conference replaced.
\<close>

definition storeSlot :: "Session \<Rightarrow> PairId \<Rightarrow> Slot list \<Rightarrow> nat \<Rightarrow> Slot \<Rightarrow> Session" where
  "storeSlot session pid slots i slot =
     session\<lparr>conferences := (conferences session)(pid := Some (slots[i := slot]))\<rparr>"

text \<open>
  Modelled from the spec: \<open>advance(pairId)\<close> of the missing \<open>ConferenceStateMachine\<close>,
  steps 1 to 7 of its description. The result is the slot or the error, the session
  after the call, and the calls made to the gateway, in order.
\<close>

definition advance ::
  "Gateway \<Rightarrow> Session \<Rightarrow> PairId \<Rightarrow> (ConferenceError + Slot) \<times> Session \<times> GatewayCall list" where
  "advance gw session pid =
     (case pairing session of
        None \<Rightarrow> (Inl PairingNotDrawnError, session, [])
      | Some prs \<Rightarrow>
          (case pairOf prs pid of
             None \<Rightarrow> (Inl PairingNotDrawnError, session, [])
           | Some (a, b) \<Rightarrow>
               (let slots = conferenceOf session pid a b
                in if isComplete slots then (Inl ConferenceCompleteError, session, [])
                   else
                     (let i = nextIndex slots;
                          slot = slots ! i;
                          ctx = contextFor a b slot
                      in case generateText gw ctx of
                           Inl e \<Rightarrow>
                             (Inl (TextGenerationFailed e),
                              storeSlot session pid slots i (slot\<lparr>status := Failed\<rparr>),
                              [TextCall ctx])
                         | Inr t \<Rightarrow>
                             (let assets = referenceAssets a b;
                                  art = artifactOf t (generateImage gw ctx assets);
                                  slot' = slot\<lparr>status := Generated, artifact := Some art\<rparr>
                              in (Inr slot', storeSlot session pid slots i slot',
                                  [TextCall ctx, ImageCall ctx assets]))))))"

text \<open>
  Modelled from the spec: a caller of the missing \<open>advance\<close> that calls it once for every
  element of a list, in sequence; each element is the behaviour of the gateway during
  that call.
\<close>

fun advanceAll ::
  "Gateway list \<Rightarrow> Session \<Rightarrow> PairId \<Rightarrow> (ConferenceError + Slot) list \<times> Session \<times> GatewayCall list" where
  "advanceAll [] session pid = ([], session, [])"
| "advanceAll (gw # gws) session pid =
     (case advance gw session pid of
        (r, session', calls) \<Rightarrow>
          (case advanceAll gws session' pid of
             (rs, session'', calls') \<Rightarrow> (r # rs, session'', calls @ calls')))"

text \<open>
  Modelled from the spec: the slots that a sequence of calls of the missing \<open>advance\<close>
  returned, in order, the failed calls left out.
\<close>

fun yielded :: "(ConferenceError + Slot) list \<Rightarrow> Slot list" where
  "yielded [] = []"
| "yielded (Inl e # rs) = yielded rs"
| "yielded (Inr slot # rs) = slot # yielded rs"

text \<open>
  Modelled from the spec: the invariant of a ConferenceState of the missing
  \<open>ConferenceStateMachine\<close>, "slots are strictly ordered and resolved strictly in order":
  six slots with the rounds and speakers in order, the first \<open>k\<close> generated and no later
  one.
\<close>

definition resolvedUpTo :: "Fighter \<Rightarrow> Fighter \<Rightarrow> nat \<Rightarrow> Slot list \<Rightarrow> bool" where
  "resolvedUpTo a b k slots =
     (length slots = 6 \<and> k \<le> 6
      \<and> (\<forall>j < 6. roundNumber (slots ! j) = j div 2 \<and> speaker (slots ! j) = (if even j then a else b))
      \<and> (\<forall>j < k. status (slots ! j) = Generated)
      \<and> (\<forall>j < 6. k \<le> j \<longrightarrow> status (slots ! j) \<noteq> Generated))"

subsection \<open>The gateway over the image capability\<close>





section \<open>Sample inputs\<close>

text \<open>Concrete hosts, options and responses, on which the theorems below are evaluated.\<close>

definition sampleOptions :: Options where
  \<comment> \<open>what \<open>parseArgs\<close> returns for \<^verbatim>\<open>cat --count 4 --output /out\<close>\<close>
  "sampleOptions =
     \<lparr>prompt = ''cat'', count = 4, aspectRatio = ''16:9'', outputDir = Some ''/out'', name = Some []\<rparr>"

definition samplePng :: Part where
  "samplePng = \<lparr>partText = None,
                inlineData = Some \<lparr>mimeType = Some ''image/png'', data = Some ''iVBORw0KGgo=''\<rparr>\<rparr>"

definition sampleJpeg :: Part where
  "sampleJpeg = \<lparr>partText = None,
                 inlineData = Some \<lparr>mimeType = Some ''image/jpeg'', data = Some ''/9j/4AAQ''\<rparr>\<rparr>"

definition sampleRefusal :: Part where
  "sampleRefusal = \<lparr>partText = Some ''I cannot create that image.'', inlineData = None\<rparr>"

definition sampleResponse :: "Part list \<Rightarrow> GenerateContentResponse" where
  "sampleResponse ps = \<lparr>candidates = Some [\<lparr>content = Some \<lparr>parts = Some ps\<rparr>\<rparr>]\<rparr>"

definition rateLimitError :: thrown where
  \<comment> \<open>the rejection of the API client on a rate limit\<close>
  "rateLimitError = JsError ''ApiError'' ''429 Too Many Requests''"

definition permissionError :: thrown where
  "permissionError = JsError ''Error'' ''EACCES: permission denied''"

definition sampleHost ::
  "(nat \<Rightarrow> GenerateContentParameters \<Rightarrow> thrown + GenerateContentResponse) \<Rightarrow> Host" where
  \<comment> \<open>a key is set, the clock reads 1700, paths are joined with a slash, the output
      directory is missing and the file system accepts every operation\<close>
  "sampleHost api =
     \<lparr>GEMINI_API_KEY = Some ''key'', generateContent = api, dateNow = 1700,
      pathResolve = (\<lambda>d. d), pathJoin = (\<lambda>d f. d @ ''/'' @ f),
      existsSync = (\<lambda>p. False), mkdirSync = (\<lambda>p. None), writeFileSync = (\<lambda>p d. None)\<rparr>"

definition answering :: "Part list \<Rightarrow> nat \<Rightarrow> GenerateContentParameters \<Rightarrow> thrown + GenerateContentResponse" where
  \<comment> \<open>an API that answers every call with these parts\<close>
  "answering ps k request = Inr (sampleResponse ps)"

definition rateLimitedOnce :: "nat \<Rightarrow> GenerateContentParameters \<Rightarrow> thrown + GenerateContentResponse" where
  \<comment> \<open>an API that rejects the first call on a rate limit and would answer a second
      call with an image\<close>
  "rateLimitedOnce k request = (if k = 0 then Inl rateLimitError else Inr (sampleResponse [samplePng]))"

definition sampleFighter :: "string \<Rightarrow> Fighter" where
  "sampleFighter c =
     \<lparr>code = c, displayName = c, description = [],
      ownerImage = c @ ''-owner.jpg'', roosterImage = c @ ''-rooster.jpg''\<rparr>"

definition sampleRoster :: "Fighter list" where
  \<comment> \<open>the six fighters, in the order of their codes\<close>
  "sampleRoster =
     map sampleFighter [''andrew_3'', ''bohdan'', ''oleg'', ''petro'', ''roma'', ''vadym'']"

definition sampleRng :: "nat \<Rightarrow> nat" where
  "sampleRng i = 3 * i + 1"

definition samplePairing :: "(Fighter \<times> Fighter) list" where
  \<comment> \<open>what \<open>draw\<close> gives for the sample roster and random source\<close>
  "samplePairing =
     [(sampleFighter ''vadym'', sampleFighter ''andrew_3''),
      (sampleFighter ''bohdan'', sampleFighter ''oleg''),
      (sampleFighter ''petro'', sampleFighter ''roma'')]"

definition sampleSession :: Session where
  \<comment> \<open>the session right after the draw\<close>
  "sampleSession =
     \<lparr>registry = sampleRoster, pairing = Some samplePairing, conferences = (\<lambda>pid. None)\<rparr>"

definition talkative :: Gateway where
  \<comment> \<open>a gateway for which text and image generation succeed\<close>
  "talkative =
     \<lparr>generateText = (\<lambda>ctx. Inr (code (ctxSpeaker ctx) @ '' taunts '' @ code (ctxOpponent ctx))),
      generateImage = (\<lambda>ctx assets. Inr ''scene'')\<rparr>"

definition imageRefused :: Gateway where
  \<comment> \<open>a gateway for which text generation succeeds and image generation is refused\<close>
  "imageRefused = talkative\<lparr>generateImage := (\<lambda>ctx assets. Inl Refused)\<rparr>"

definition textTimedOut :: Gateway where
  \<comment> \<open>a gateway for which text generation fails with a transient error\<close>
  "textTimedOut = talkative\<lparr>generateText := (\<lambda>ctx. Inl Transient)\<rparr>"



section \<open>Properties of the command-line options\<close>


lemma parseLoop_ratio:
  "aspectRatio options \<in> set VALID_ASPECT_RATIOS \<Longrightarrow>
   aspectRatio (parseLoop args options) \<in> set VALID_ASPECT_RATIOS"
  by (induction args options rule: parseLoop.induct) (auto split: option.splits)

lemma parseLoop_ratio_chosen:
  "aspectRatio (parseLoop args options)
     = (if filter (\<lambda>r. r \<in> set VALID_ASPECT_RATIOS) (ratioValues args) = []
        then aspectRatio options
        else last (filter (\<lambda>r. r \<in> set VALID_ASPECT_RATIOS) (ratioValues args)))"
  by (induction args options rule: parseLoop.induct) (auto split: option.splits)



text \<open>
  C9 as stated fails. A \<^verbatim>\<open>--ratio\<close> value outside the list is ignored, but what is kept
  is not always the default: after \<^verbatim>\<open>--ratio 1:1\<close> the value \<open>7:7\<close> is skipped and the
  options keep \<open>1:1\<close>.
\<close>

theorem parseArgs_ratio_kept_counterexample:
  "parseArgs ''/w/generated-images'' [''cat'', ''--ratio'', ''1:1'', ''--ratio'', ''7:7'']
     = ([], Inr \<lparr>prompt = ''cat'', count = 1, aspectRatio = ''1:1'',
                  outputDir = Some ''/w/generated-images'', name = Some []\<rparr>)
   \<and> ''7:7'' \<notin> set VALID_ASPECT_RATIOS"
  by code_simp

text \<open>
  C9, amended. For every argument list for which \<open>parseArgs\<close> returns options, their
  \<open>aspectRatio\<close> is a member of \<open>VALID_ASPECT_RATIOS\<close> and nothing was printed with
  \<open>console.error\<close>. A \<^verbatim>\<open>--ratio\<close> value outside the list is skipped with its flag, leaving
  the options as they were: the aspect ratio returned is the last \<^verbatim>\<open>--ratio\<close> value that
  is in the list, and the default \<open>16:9\<close> when no \<^verbatim>\<open>--ratio\<close> value is in the list.
\<close>

theorem parseArgs_ratio_valid:
  "(parseArgs dir args = (err, Inr options) \<longrightarrow>
      aspectRatio options \<in> set VALID_ASPECT_RATIOS \<and> err = []
      \<and> aspectRatio options
          = (if filter (\<lambda>r. r \<in> set VALID_ASPECT_RATIOS) (ratioValues args) = [] then ''16:9''
             else last (filter (\<lambda>r. r \<in> set VALID_ASPECT_RATIOS) (ratioValues args))))
   \<and> (r \<notin> set VALID_ASPECT_RATIOS \<longrightarrow>
        parseLoop (''--ratio'' # r # rest) options' = parseLoop rest options')"
proof -
  have a: "parseArgs dir args = (err, Inr options) \<longrightarrow>
      aspectRatio options \<in> set VALID_ASPECT_RATIOS \<and> err = []"
    using parseLoop_ratio [of "defaultOptions dir" args]
    by (auto simp: parseArgs_def Let_def defaultOptions_def VALID_ASPECT_RATIOS_def split: if_splits)
  have c: "parseArgs dir args = (err, Inr options) \<longrightarrow>
      aspectRatio options
          = (if filter (\<lambda>r. r \<in> set VALID_ASPECT_RATIOS) (ratioValues args) = [] then ''16:9''
             else last (filter (\<lambda>r. r \<in> set VALID_ASPECT_RATIOS) (ratioValues args)))"
  proof
    assume "parseArgs dir args = (err, Inr options)"
    then have "options = parseLoop args (defaultOptions dir)"
      by (auto simp: parseArgs_def Let_def split: if_splits)
    then show "aspectRatio options
          = (if filter (\<lambda>r. r \<in> set VALID_ASPECT_RATIOS) (ratioValues args) = [] then ''16:9''
             else last (filter (\<lambda>r. r \<in> set VALID_ASPECT_RATIOS) (ratioValues args)))"
      using parseLoop_ratio_chosen [of args "defaultOptions dir"]
      by (simp add: defaultOptions_def)
  qed
  have b: "r \<notin> set VALID_ASPECT_RATIOS \<longrightarrow>
        parseLoop (''--ratio'' # r # rest) options' = parseLoop rest options'"
    by (simp add: nextArg_def)
  from a b c show ?thesis by blast
qed

theorem parseArgs_ratio_valid_witness:
  "parseArgs ''/w/generated-images'' [''cat'', ''--ratio'', ''7:7'']
     = ([], Inr \<lparr>prompt = ''cat'', count = 1, aspectRatio = ''16:9'',
                  outputDir = Some ''/w/generated-images'', name = Some []\<rparr>)
   \<and> ''7:7'' \<notin> set VALID_ASPECT_RATIOS
   \<and> ratioValues [''cat'', ''--ratio'', ''7:7''] = [''7:7'']
   \<and> ''16:9'' \<in> set VALID_ASPECT_RATIOS
   \<and> parseLoop [''--ratio'', ''7:7'', ''cat''] (defaultOptions ''/w/generated-images'')
       = parseLoop [''cat''] (defaultOptions ''/w/generated-images'')
   \<and> ratioValues [''cat'', ''--ratio'', ''1:1'', ''--ratio'', ''7:7''] = [''1:1'', ''7:7'']
   \<and> aspectRatio (projr (snd (parseArgs ''/w/generated-images''
          [''cat'', ''--ratio'', ''1:1'', ''--ratio'', ''7:7'']))) = ''1:1''"
proof -
  let ?o = "\<lparr>prompt = ''cat'', count = 1, aspectRatio = ''16:9'',
                  outputDir = Some ''/w/generated-images'', name = Some []\<rparr>"
  let ?args2 = "[''cat'', ''--ratio'', ''1:1'', ''--ratio'', ''7:7'']"
  have run: "parseArgs ''/w/generated-images'' [''cat'', ''--ratio'', ''7:7''] = ([], Inr ?o)"
    by code_simp
  have bad: "''7:7'' \<notin> set VALID_ASPECT_RATIOS"
    by (simp add: VALID_ASPECT_RATIOS_def)
  have rv: "ratioValues [''cat'', ''--ratio'', ''7:7''] = [''7:7'']" by code_simp
  have rv2: "ratioValues ?args2 = [''1:1'', ''7:7'']" by code_simp
  have f2: "filter (\<lambda>r. r \<in> set VALID_ASPECT_RATIOS) [''1:1'', ''7:7''] = [''1:1'']"
    by (simp add: VALID_ASPECT_RATIOS_def)
  have run2: "parseArgs ''/w/generated-images'' ?args2
      = ([], Inr (projr (snd (parseArgs ''/w/generated-images'' ?args2))))"
    by code_simp
  have one: "aspectRatio ?o \<in> set VALID_ASPECT_RATIOS
      \<and> parseLoop [''--ratio'', ''7:7'', ''cat''] (defaultOptions ''/w/generated-images'')
          = parseLoop [''cat''] (defaultOptions ''/w/generated-images'')"
    using parseArgs_ratio_valid [of "''/w/generated-images''" "[''cat'', ''--ratio'', ''7:7'']" "[]" ?o
        "''7:7''" "[''cat'']" "defaultOptions ''/w/generated-images''"] run bad
    by simp
  have two: "aspectRatio (projr (snd (parseArgs ''/w/generated-images'' ?args2))) = ''1:1''"
    using parseArgs_ratio_valid [of "''/w/generated-images''" ?args2 "[]"
        "projr (snd (parseArgs ''/w/generated-images'' ?args2))" "''7:7''" "[]"
        "defaultOptions ''/w/generated-images''"] run2
    by (simp only: rv2 f2) simp
  from run bad rv rv2 one two show ?thesis by simp
qed

section \<open>Properties of the image-generation call\<close>

lemma requests_generateImages:
  "requests (snd (generateImages h options)) = (if apiKeyMissing h then [] else [requestOf options])"
  by (auto simp: generateImages_def handleResponse_def Let_def split: sum.splits option.splits prod.splits)

lemma saveLoop_paths:
  "saveLoop h options d len i rest saved wr = (Inr paths, wr') \<Longrightarrow>
   paths = saved @ map (\<lambda>(j, p). pathJoin h d (filenameOf (baseNameOf h options) len j (extOf (partMime p))))
                     (zip [i..<i + length rest] rest)
   \<and> map fst wr' = map fst wr @ map (\<lambda>(j, p). pathJoin h d (filenameOf (baseNameOf h options) len j (extOf (partMime p))))
                     (zip [i..<i + length rest] rest)"
proof (induction rest arbitrary: i saved wr)
  case Nil
  then show ?case by simp
next
  case (Cons part rest)
  from Cons.prems obtain b m imageData where
    b: "inlineData part = Some b" and m: "mimeType b = Some m" and dta: "data b = Some imageData"
    and w: "writeFileSync h (pathJoin h d (filenameOf (baseNameOf h options) len i (extOf m))) imageData = None"
    and rec: "saveLoop h options d len (Suc i) rest
                (saved @ [pathJoin h d (filenameOf (baseNameOf h options) len i (extOf m))])
                (wr @ [(pathJoin h d (filenameOf (baseNameOf h options) len i (extOf m)), imageData)]) = (Inr paths, wr')"
    by (auto simp: Let_def split: option.splits)
  have pm: "partMime part = m" using b m by (simp add: partMime_def)
  have "[i..<i + length (part # rest)] = i # [Suc i..<i + length (part # rest)]"
    by (rule upt_conv_Cons) simp
  then have upt: "[i..<i + length (part # rest)] = i # [Suc i..<Suc i + length rest]"
    by simp
  from Cons.IH [OF rec] show ?case
    unfolding upt by (simp add: pm)
qed

lemma saveLoop_succeeds:
  assumes "\<forall>p \<in> set rest. \<exists>b m dta. inlineData p = Some b \<and> mimeType b = Some m \<and> data b = Some dta"
    and "\<forall>p dta. writeFileSync h p dta = None"
  shows "\<exists>paths wr'. saveLoop h options d len i rest saved wr = (Inr paths, wr')"
  using assms(1)
proof (induction rest arbitrary: i saved wr)
  case Nil
  then show ?case by simp
next
  case (Cons part rest)
  then obtain b m dta where "inlineData part = Some b" "mimeType b = Some m" "data b = Some dta"
    by auto
  moreover have "\<forall>p \<in> set rest. \<exists>b m dta. inlineData p = Some b \<and> mimeType b = Some m \<and> data b = Some dta"
    using Cons.prems by simp
  ultimately show ?case using Cons.IH assms(2) by (simp add: Let_def)
qed

lemma saveLoop_error:
  assumes "list_all isImagePart rest"
    and "saveLoop h options d len i rest saved wr = (Inl e, wr')"
  shows "e = bufferTypeError \<or> (\<exists>p dta. writeFileSync h p dta = Some e)"
  using assms
proof (induction rest arbitrary: i saved wr)
  case Nil
  then show ?case by simp
next
  case (Cons part rest)
  from Cons.prems(1) obtain b m where b: "inlineData part = Some b" and m: "mimeType b = Some m"
    by (auto simp: isImagePart_def split: option.splits)
  show ?case
  proof (cases "data b")
    case None
    then show ?thesis using Cons.prems(2) b m by (simp add: Let_def)
  next
    case (Some dta)
    show ?thesis
    proof (cases "writeFileSync h (pathJoin h d (filenameOf (baseNameOf h options) len i (extOf m))) dta")
      case None
      then show ?thesis using Cons.prems b m Some Cons.IH by (auto simp: Let_def)
    next
      case (Some e')
      then show ?thesis using Cons.prems(2) b m \<open>data b = Some dta\<close> by (auto simp: Let_def)
    qed
  qed
qed


lemma imageParts_all: "list_all isImagePart (imagePartsOf result)"
  by (simp add: imagePartsOf_def list_all_iff)

text \<open>
  C1 as stated fails. The API rejects the first call on a rate limit, a transient
  failure, and would answer a second call with an image: \<open>generateImages\<close> delivers the
  rate-limit error after one request.
\<close>

theorem generateImages_single_attempt_counterexample:
  "fst (generateImages (sampleHost rateLimitedOnce) sampleOptions) = Inl rateLimitError
   \<and> length (requests (snd (generateImages (sampleHost rateLimitedOnce) sampleOptions))) = 1
   \<and> rateLimitedOnce 1 (requestOf sampleOptions) = Inr (sampleResponse [samplePng])"
  by code_simp

text \<open>
  C1, amended. For every image-generation request \<open>generateImages\<close> calls the API at most
  once: exactly one request, the one built from the options, when the API key is set, and
  none when it is missing. When that call fails, whatever the failure, the caller gets
  its error at once, with nothing created or written; there is no retry.
\<close>

theorem generateImages_single_attempt:
  "requests (snd (generateImages h options)) = (if apiKeyMissing h then [] else [requestOf options])
   \<and> (\<not> apiKeyMissing h \<and> generateContent h 0 (requestOf options) = Inl e \<longrightarrow>
        generateImages h options
          = (Inl e, \<lparr>requests = [requestOf options], created = [], written = []\<rparr>))"
  by (simp add: requests_generateImages) (simp add: generateImages_def)

theorem generateImages_single_attempt_witness:
  "\<not> apiKeyMissing (sampleHost rateLimitedOnce)
   \<and> generateContent (sampleHost rateLimitedOnce) 0 (requestOf sampleOptions) = Inl rateLimitError
   \<and> generateImages (sampleHost rateLimitedOnce) sampleOptions
       = (Inl rateLimitError, \<lparr>requests = [requestOf sampleOptions], created = [], written = []\<rparr>)
   \<and> requests (snd (generateImages (sampleHost rateLimitedOnce) sampleOptions)) = [requestOf sampleOptions]"
proof -
  have k: "\<not> apiKeyMissing (sampleHost rateLimitedOnce)"
    by (simp add: apiKeyMissing_def sampleHost_def)
  have a: "generateContent (sampleHost rateLimitedOnce) 0 (requestOf sampleOptions) = Inl rateLimitError"
    by (simp add: sampleHost_def rateLimitedOnce_def)
  show ?thesis
    using generateImages_single_attempt [of "sampleHost rateLimitedOnce" sampleOptions rateLimitError] k a
    by simp
qed

text \<open>
  The image script takes no reference assets: every request \<open>generateImages\<close> sends is the
  one built from the options, and its contents are the prompt text alone.
\<close>

lemma generateImages_request_text_only:
  "r \<in> set (requests (snd (generateImages h options))) \<Longrightarrow>
   r = requestOf options \<and> contents r = ContentString (apiPromptOf options)
   \<and> referenceImages (contents r) = []"
  by (simp add: requests_generateImages requestOf_def split: if_splits)

lemma handleResponse_cases:
  assumes "outputDir options = Some d"
    and "existsSync h (pathResolve h d) \<or> mkdirSync h (pathResolve h d) = None"
  shows "fst (handleResponse h options result eff)
     = (if imagePartsOf result = [] then Inl noImagesError
        else fst (saveLoop h options (pathResolve h d) (length (imagePartsOf result)) 0
                    (imagePartsOf result) [] (written eff)))"
  using assms by (auto simp: handleResponse_def Let_def split: prod.splits)

text \<open>
  C3 as stated fails. On a text-only answer of the model the caller gets a plain \<open>Error\<close>
  with a fixed message, and on a rate limit the error of the API client as it was
  thrown; neither is a \<open>GenerationError\<close>, and \<open>main\<close> prints the message and exits
  with status 1.
\<close>

theorem generateImages_raw_errors_counterexample:
  "fst (generateImages (sampleHost (answering [sampleRefusal])) sampleOptions) = Inl noImagesError
   \<and> errorClass noImagesError = Some ''Error''
   \<and> \<not> isGenerationError noImagesError
   \<and> fst (generateImages (sampleHost rateLimitedOnce) sampleOptions) = Inl rateLimitError
   \<and> \<not> isGenerationError rateLimitError
   \<and> main (sampleHost (answering [sampleRefusal])) ''/w/generated-images'' [''cat'']
       = ([ErrorLine ''No images were generated. The model may have refused or encountered an issue.''], 1)"
  by code_simp

text \<open>
  C3, amended. When the output directory is given, an error delivered by \<open>generateImages\<close>
  is a raw thrown value without a tag: the plain \<open>Error\<close> for the missing API key or for a
  response without images, the \<open>TypeError\<close> of Node for image data that is undefined, or
  the very value thrown by the API call, by \<open>mkdirSync\<close> or by \<open>writeFileSync\<close>. When the
  options were parsed, \<open>main\<close> prints the message of that error first and exits with
  status 1.
\<close>

theorem generateImages_raw_errors:
  "(outputDir options = Some d \<and> fst (generateImages h options) = Inl e \<longrightarrow>
      e = noApiKeyError \<or> e = noImagesError \<or> e = bufferTypeError
      \<or> generateContent h 0 (requestOf options) = Inl e
      \<or> (\<exists>p. mkdirSync h p = Some e) \<or> (\<exists>p dta. writeFileSync h p dta = Some e))
   \<and> (parseArgs dir args = (err, Inr options') \<and> outputDir options' = Some d'
        \<and> fst (generateImages h options') = Inl e' \<longrightarrow>
        main h dir args
          = (ErrorLine (errorText e')
               # (if instanceofError e' \<and> includesStr (errorText e') ''GEMINI_API_KEY''
                  then [EnvFileHintLine, GetKeyHintLine] else []),
             1))"
proof -
  have a: "outputDir options = Some d \<and> fst (generateImages h options) = Inl e \<longrightarrow>
      e = noApiKeyError \<or> e = noImagesError \<or> e = bufferTypeError
      \<or> generateContent h 0 (requestOf options) = Inl e
      \<or> (\<exists>p. mkdirSync h p = Some e) \<or> (\<exists>p dta. writeFileSync h p dta = Some e)"
  proof
    assume asm: "outputDir options = Some d \<and> fst (generateImages h options) = Inl e"
    then have od: "outputDir options = Some d" and f: "fst (generateImages h options) = Inl e"
      by simp_all
    show "e = noApiKeyError \<or> e = noImagesError \<or> e = bufferTypeError
      \<or> generateContent h 0 (requestOf options) = Inl e
      \<or> (\<exists>p. mkdirSync h p = Some e) \<or> (\<exists>p dta. writeFileSync h p dta = Some e)"
    proof (cases "apiKeyMissing h")
      case True
      then show ?thesis using f by (simp add: generateImages_def)
    next
      case False
      show ?thesis
      proof (cases "generateContent h 0 (requestOf options)")
        case (Inl e0)
        then show ?thesis using f False by (simp add: generateImages_def)
      next
        case (Inr result)
        let ?eff = "\<lparr>requests = [requestOf options], created = [], written = []\<rparr>"
        have hr: "fst (handleResponse h options result ?eff) = Inl e"
          using f False Inr by (simp add: generateImages_def)
        show ?thesis
        proof (cases "existsSync h (pathResolve h d) \<or> mkdirSync h (pathResolve h d) = None")
          case False
          then show ?thesis using hr od by (auto simp: handleResponse_def Let_def)
        next
          case True
          note cases = handleResponse_cases [OF od True, of result ?eff]
          show ?thesis
          proof (cases "imagePartsOf result = []")
            case True
            then show ?thesis using hr cases by simp
          next
            case False
            obtain r wr' where sl: "saveLoop h options (pathResolve h d) (length (imagePartsOf result)) 0
                    (imagePartsOf result) [] (written ?eff) = (r, wr')"
              by (cases "saveLoop h options (pathResolve h d) (length (imagePartsOf result)) 0
                    (imagePartsOf result) [] (written ?eff)")
            have "r = Inl e" using hr False sl cases by simp
            with sl have "saveLoop h options (pathResolve h d) (length (imagePartsOf result)) 0
                    (imagePartsOf result) [] (written ?eff) = (Inl e, wr')"
              by simp
            from saveLoop_error [OF imageParts_all this] show ?thesis by blast
          qed
        qed
      qed
    qed
  qed
  have b: "parseArgs dir args = (err, Inr options') \<and> outputDir options' = Some d'
        \<and> fst (generateImages h options') = Inl e' \<longrightarrow>
        main h dir args
          = (ErrorLine (errorText e')
               # (if instanceofError e' \<and> includesStr (errorText e') ''GEMINI_API_KEY''
                  then [EnvFileHintLine, GetKeyHintLine] else []),
             1)"
    by (auto simp: main_def parseArgs_def Let_def split: if_splits)
  from a b show ?thesis by blast
qed

theorem generateImages_raw_errors_witness:
  "parseArgs ''/w/generated-images'' [''cat'']
     = ([], Inr (defaultOptions ''/w/generated-images''\<lparr>prompt := ''cat''\<rparr>))
   \<and> outputDir (defaultOptions ''/w/generated-images''\<lparr>prompt := ''cat''\<rparr>)
       = Some ''/w/generated-images''
   \<and> fst (generateImages (sampleHost rateLimitedOnce)
            (defaultOptions ''/w/generated-images''\<lparr>prompt := ''cat''\<rparr>)) = Inl rateLimitError
   \<and> generateContent (sampleHost rateLimitedOnce) 0
        (requestOf (defaultOptions ''/w/generated-images''\<lparr>prompt := ''cat''\<rparr>)) = Inl rateLimitError
   \<and> main (sampleHost rateLimitedOnce) ''/w/generated-images'' [''cat'']
       = ([ErrorLine ''429 Too Many Requests''], 1)"
proof -
  let ?o = "defaultOptions ''/w/generated-images''\<lparr>prompt := ''cat''\<rparr>"
  have p: "parseArgs ''/w/generated-images'' [''cat''] = ([], Inr ?o)"
    by (simp add: parseArgs_def startsWith_def)
  have od: "outputDir ?o = Some ''/w/generated-images''" by (simp add: defaultOptions_def)
  have g: "fst (generateImages (sampleHost rateLimitedOnce) ?o) = Inl rateLimitError"
    by (simp add: generateImages_def apiKeyMissing_def sampleHost_def rateLimitedOnce_def)
  have a: "generateContent (sampleHost rateLimitedOnce) 0 (requestOf ?o) = Inl rateLimitError"
    by (simp add: sampleHost_def rateLimitedOnce_def)
  have m: "errorText rateLimitError = ''429 Too Many Requests''"
    "\<not> includesStr (errorText rateLimitError) ''GEMINI_API_KEY''"
    by code_simp+
  show ?thesis
    using generateImages_raw_errors [of ?o "''/w/generated-images''" "sampleHost rateLimitedOnce"
        rateLimitError "''/w/generated-images''" "[''cat'']" "[]" ?o "''/w/generated-images''"
        rateLimitError] p od g a m
    by simp
qed

text \<open>
  C4 as stated fails. The response holds an image part, and still \<open>generateImages\<close>
  returns an error: when the API key is missing (the call is never made), when the file
  cannot be written, when the output directory cannot be created, and when the image
  part has no data.
\<close>

theorem generateImages_error_iff_no_image_counterexample:
  "imagePartsOf (sampleResponse [samplePng]) = [samplePng]
   \<and> fst (generateImages ((sampleHost (answering [samplePng]))\<lparr>GEMINI_API_KEY := None\<rparr>) sampleOptions)
       = Inl noApiKeyError
   \<and> fst (generateImages
            ((sampleHost (answering [samplePng]))\<lparr>writeFileSync := (\<lambda>p d. Some permissionError)\<rparr>)
            sampleOptions)
       = Inl permissionError
   \<and> fst (generateImages
            ((sampleHost (answering [samplePng]))\<lparr>mkdirSync := (\<lambda>p. Some permissionError)\<rparr>)
            sampleOptions)
       = Inl permissionError
   \<and> fst (generateImages
            (sampleHost (answering
               [\<lparr>partText = None, inlineData = Some \<lparr>mimeType = Some ''image/png'', data = None\<rparr>\<rparr>]))
            sampleOptions)
       = Inl bufferTypeError"
  by code_simp

text \<open>
  C4, amended. When the API key is set, the API call returns a response, the output
  directory is given and exists or can be created, every image part carries data and
  files can be written, then \<open>generateImages\<close> returns an error exactly when the response
  holds no image part; the error is then the plain \<open>Error\<close> "No images were generated",
  also for a text-only response; otherwise one path for every image part is returned.
\<close>

theorem generateImages_error_iff_no_image:
  assumes "\<not> apiKeyMissing h"
    and "generateContent h 0 (requestOf options) = Inr result"
    and "outputDir options = Some d"
    and "existsSync h (pathResolve h d) \<or> mkdirSync h (pathResolve h d) = None"
    and "\<forall>p dta. writeFileSync h p dta = None"
    and "\<forall>p \<in> set (imagePartsOf result). \<exists>b dta. inlineData p = Some b \<and> data b = Some dta"
  shows "(isl (fst (generateImages h options)) \<longleftrightarrow> imagePartsOf result = [])
    \<and> (imagePartsOf result = [] \<longrightarrow> fst (generateImages h options) = Inl noImagesError)
    \<and> (imagePartsOf result \<noteq> [] \<longrightarrow>
         (\<exists>paths. fst (generateImages h options) = Inr paths
            \<and> length paths = length (imagePartsOf result)))"
proof -
  let ?eff = "\<lparr>requests = [requestOf options], created = [], written = []\<rparr>"
  let ?ips = "imagePartsOf result"
  have g: "fst (generateImages h options) = fst (handleResponse h options result ?eff)"
    using assms(1,2) by (simp add: generateImages_def)
  have hr: "fst (handleResponse h options result ?eff)
     = (if ?ips = [] then Inl noImagesError
        else fst (saveLoop h options (pathResolve h d) (length ?ips) 0 ?ips [] (written ?eff)))"
    by (rule handleResponse_cases [OF assms(3,4)])
  have full: "\<forall>p \<in> set ?ips. \<exists>b m dta. inlineData p = Some b \<and> mimeType b = Some m \<and> data b = Some dta"
  proof
    fix p assume p: "p \<in> set ?ips"
    then have "isImagePart p" by (simp add: imagePartsOf_def)
    moreover from p assms(6) obtain b dta where "inlineData p = Some b" "data b = Some dta" by blast
    ultimately show "\<exists>b m dta. inlineData p = Some b \<and> mimeType b = Some m \<and> data b = Some dta"
      by (auto simp: isImagePart_def split: option.splits)
  qed
  from saveLoop_succeeds [OF full assms(5)]
  obtain paths wr' where sl:
    "saveLoop h options (pathResolve h d) (length ?ips) 0 ?ips [] (written ?eff) = (Inr paths, wr')"
    by blast
  from saveLoop_paths [OF sl] have len: "length paths = length ?ips" by simp
  show ?thesis using g hr sl len by simp
qed

theorem generateImages_error_iff_no_image_witness:
  "fst (generateImages (sampleHost (answering [sampleRefusal])) sampleOptions) = Inl noImagesError
   \<and> imagePartsOf (sampleResponse [sampleRefusal]) = []
   \<and> textPartsOf (sampleResponse [sampleRefusal]) = [sampleRefusal]
   \<and> \<not> isl (fst (generateImages (sampleHost (answering [sampleRefusal, samplePng, sampleJpeg])) sampleOptions))
   \<and> (\<exists>paths. fst (generateImages (sampleHost (answering [sampleRefusal, samplePng, sampleJpeg])) sampleOptions)
          = Inr paths \<and> length paths = 2)"
proof -
  have ip0: "imagePartsOf (sampleResponse [sampleRefusal]) = []" by code_simp
  have tp0: "textPartsOf (sampleResponse [sampleRefusal]) = [sampleRefusal]" by code_simp
  have ip2: "imagePartsOf (sampleResponse [sampleRefusal, samplePng, sampleJpeg]) = [samplePng, sampleJpeg]"
    by code_simp
  have d2: "\<forall>p \<in> set [samplePng, sampleJpeg]. \<exists>b dta. inlineData p = Some b \<and> data b = Some dta"
    by (simp add: samplePng_def sampleJpeg_def)
  have k: "\<not> apiKeyMissing (sampleHost api)" for api
    by (simp add: apiKeyMissing_def sampleHost_def)
  have a: "generateContent (sampleHost (answering ps)) 0 (requestOf sampleOptions) = Inr (sampleResponse ps)" for ps
    by (simp add: sampleHost_def answering_def)
  have od: "outputDir sampleOptions = Some ''/out''" by (simp add: sampleOptions_def)
  have mk: "existsSync (sampleHost api) (pathResolve (sampleHost api) ''/out'')
      \<or> mkdirSync (sampleHost api) (pathResolve (sampleHost api) ''/out'') = None" for api
    by (simp add: sampleHost_def)
  have wf: "\<forall>p dta. writeFileSync (sampleHost api) p dta = None" for api
    by (simp add: sampleHost_def)
  have r0: "imagePartsOf (sampleResponse [sampleRefusal]) = [] \<longrightarrow>
      fst (generateImages (sampleHost (answering [sampleRefusal])) sampleOptions) = Inl noImagesError"
    using generateImages_error_iff_no_image [OF k a od mk wf, of "[sampleRefusal]"] ip0 by simp
  have r2: "(isl (fst (generateImages (sampleHost (answering [sampleRefusal, samplePng, sampleJpeg])) sampleOptions))
        \<longleftrightarrow> imagePartsOf (sampleResponse [sampleRefusal, samplePng, sampleJpeg]) = [])
    \<and> (imagePartsOf (sampleResponse [sampleRefusal, samplePng, sampleJpeg]) \<noteq> [] \<longrightarrow>
         (\<exists>paths. fst (generateImages (sampleHost (answering [sampleRefusal, samplePng, sampleJpeg])) sampleOptions)
            = Inr paths
            \<and> length paths = length (imagePartsOf (sampleResponse [sampleRefusal, samplePng, sampleJpeg]))))"
    using generateImages_error_iff_no_image [OF k a od mk wf, of "[sampleRefusal, samplePng, sampleJpeg]"]
      ip2 d2 by simp
  show ?thesis using r0 r2 ip0 tp0 ip2 by (simp add: numeral_2_eq_2)
qed


text \<open>
  C10. On every successful run \<open>generateImages\<close> returns one path for every image part of
  the response, at least one, in order, and these are the files written. With one image
  the file is named base.ext, with more than one the \<open>i\<close>-th file (from 0) is named
  base-(i+1).ext. The number of paths may be lower or higher than the requested count.
\<close>

theorem generateImages_one_path_per_image:
  assumes "generateImages h options = (Inr paths, eff)"
  shows "\<exists>result d.
      generateContent h 0 (requestOf options) = Inr result \<and> outputDir options = Some d
      \<and> length paths = length (imagePartsOf result) \<and> 0 < length paths
      \<and> map fst (written eff) = paths
      \<and> (\<forall>i < length paths.
            paths ! i = pathJoin h (pathResolve h d)
               (filenameOf (baseNameOf h options) (length paths) i
                  (extOf (partMime (imagePartsOf result ! i)))))
      \<and> (length paths = 1 \<longrightarrow>
            paths = [pathJoin h (pathResolve h d)
               (baseNameOf h options @ ''.'' @ extOf (partMime (imagePartsOf result ! 0)))])
      \<and> (1 < length paths \<longrightarrow>
            (\<forall>i < length paths.
               paths ! i = pathJoin h (pathResolve h d)
                 (baseNameOf h options @ ''-'' @ showNat (i + 1) @ ''.''
                    @ extOf (partMime (imagePartsOf result ! i)))))
      \<and> (\<exists>h' options' paths'. fst (generateImages h' options') = Inr paths'
            \<and> int (length paths') < count options')
      \<and> (\<exists>h' options' paths'. fst (generateImages h' options') = Inr paths'
            \<and> count options' < int (length paths'))"
proof -
  have key: "\<not> apiKeyMissing h"
    using assms by (auto simp: generateImages_def)
  obtain result where api: "generateContent h 0 (requestOf options) = Inr result"
    using assms key by (cases "generateContent h 0 (requestOf options)") (auto simp: generateImages_def)
  let ?eff = "\<lparr>requests = [requestOf options], created = [], written = []\<rparr>"
  have hr: "handleResponse h options result ?eff = (Inr paths, eff)"
    using assms key api by (simp add: generateImages_def)
  obtain d where d: "outputDir options = Some d"
    using hr by (cases "outputDir options") (auto simp: handleResponse_def)
  let ?dir = "pathResolve h d"
  let ?ips = "imagePartsOf result"
  have mk: "existsSync h ?dir \<or> mkdirSync h ?dir = None"
    using hr d by (auto simp: handleResponse_def Let_def split: if_splits option.splits)
  have ne: "?ips \<noteq> []"
    using hr handleResponse_cases [OF d mk, of result ?eff] by (auto split: if_splits)
  obtain wr' where sl: "saveLoop h options ?dir (length ?ips) 0 ?ips [] [] = (Inr paths, wr')"
    and eff: "written eff = wr'"
    using hr d mk ne by (auto simp: handleResponse_def Let_def split: if_splits option.splits prod.splits)
  let ?f = "\<lambda>(j, p). pathJoin h ?dir (filenameOf (baseNameOf h options) (length ?ips) j (extOf (partMime p)))"
  from saveLoop_paths [OF sl]
  have paths: "paths = map ?f (zip [0..<length ?ips] ?ips)"
    and wr: "map fst wr' = map ?f (zip [0..<length ?ips] ?ips)"
    by simp_all
  have len: "length paths = length ?ips" using paths by simp
  have nth: "paths ! i = pathJoin h ?dir
               (filenameOf (baseNameOf h options) (length paths) i (extOf (partMime (?ips ! i))))"
    if "i < length paths" for i
    using that len by (simp add: paths)
  have one: "length paths = 1 \<longrightarrow>
            paths = [pathJoin h ?dir (baseNameOf h options @ ''.'' @ extOf (partMime (?ips ! 0)))]"
  proof
    assume l1: "length paths = 1"
    then obtain x where x: "paths = [x]" by (cases paths) auto
    from nth [of 0] l1 have "paths ! 0 = pathJoin h ?dir (baseNameOf h options @ ''.'' @ extOf (partMime (?ips ! 0)))"
      by (simp add: filenameOf_def)
    with x show "paths = [pathJoin h ?dir (baseNameOf h options @ ''.'' @ extOf (partMime (?ips ! 0)))]"
      by simp
  qed
  have many: "1 < length paths \<longrightarrow>
            (\<forall>i < length paths.
               paths ! i = pathJoin h ?dir
                 (baseNameOf h options @ ''-'' @ showNat (i + 1) @ ''.'' @ extOf (partMime (?ips ! i))))"
    using nth by (simp add: filenameOf_def)
  have fewer: "\<exists>h' options' paths'. fst (generateImages h' options') = Inr paths'
            \<and> int (length paths') < count options'"
  proof (intro exI conjI)
    show "fst (generateImages (sampleHost (answering [samplePng])) sampleOptions)
        = Inr [''/out/beach-party-1700.png'']"
      by code_simp
    show "int (length [''/out/beach-party-1700.png'']) < count sampleOptions"
      by (simp add: sampleOptions_def)
  qed
  have more: "\<exists>h' options' paths'. fst (generateImages h' options') = Inr paths'
            \<and> count options' < int (length paths')"
  proof (intro exI conjI)
    show "fst (generateImages (sampleHost (answering [samplePng, sampleJpeg])) (sampleOptions\<lparr>count := 1\<rparr>))
        = Inr [''/out/beach-party-1700-1.png'', ''/out/beach-party-1700-2.jpg'']"
      by code_simp
    show "count (sampleOptions\<lparr>count := 1\<rparr>)
        < int (length [''/out/beach-party-1700-1.png'', ''/out/beach-party-1700-2.jpg''])"
      by simp
  qed
  have pos: "0 < length paths" using ne len by simp
  have w: "map fst (written eff) = paths" using eff wr paths by simp
  have nth': "\<forall>i < length paths.
            paths ! i = pathJoin h ?dir
               (filenameOf (baseNameOf h options) (length paths) i (extOf (partMime (?ips ! i))))"
    using nth by blast
  show ?thesis
    using api d len pos w nth' one many fewer more
    by - (rule exI [of _ result], rule exI [of _ d], intro conjI, assumption+)
qed

theorem generateImages_one_path_per_image_witness:
  "generateImages (sampleHost (answering [sampleRefusal, samplePng, sampleJpeg])) sampleOptions
     = (Inr [''/out/beach-party-1700-1.png'', ''/out/beach-party-1700-2.jpg''],
        \<lparr>requests = [requestOf sampleOptions], created = [''/out''],
         written = [(''/out/beach-party-1700-1.png'', ''iVBORw0KGgo=''),
                    (''/out/beach-party-1700-2.jpg'', ''/9j/4AAQ'')]\<rparr>)
   \<and> length [''/out/beach-party-1700-1.png'', ''/out/beach-party-1700-2.jpg'']
       = length (imagePartsOf (sampleResponse [sampleRefusal, samplePng, sampleJpeg]))"
proof -
  have run: "generateImages (sampleHost (answering [sampleRefusal, samplePng, sampleJpeg])) sampleOptions
     = (Inr [''/out/beach-party-1700-1.png'', ''/out/beach-party-1700-2.jpg''],
        \<lparr>requests = [requestOf sampleOptions], created = [''/out''],
         written = [(''/out/beach-party-1700-1.png'', ''iVBORw0KGgo=''),
                    (''/out/beach-party-1700-2.jpg'', ''/9j/4AAQ'')]\<rparr>)"
    by code_simp
  from generateImages_one_path_per_image [OF run]
  obtain result where "generateContent (sampleHost (answering [sampleRefusal, samplePng, sampleJpeg])) 0
        (requestOf sampleOptions) = Inr result"
    and "length [''/out/beach-party-1700-1.png'', ''/out/beach-party-1700-2.jpg'']
       = length (imagePartsOf result)"
    by blast
  then have "length [''/out/beach-party-1700-1.png'', ''/out/beach-party-1700-2.jpg'']
       = length (imagePartsOf (sampleResponse [sampleRefusal, samplePng, sampleJpeg]))"
    by (simp add: sampleHost_def answering_def)
  with run show ?thesis by simp
qed


section \<open>Properties of the pairing engine and the conference state machine\<close>

lemma length_swap: "length (swap i j xs) = length xs"
  by (simp add: swap_def)

lemma set_swap_fighters: "i < length xs \<Longrightarrow> j < length xs \<Longrightarrow> set (swap i j xs) = set xs"
  by (simp add: swap_def)

lemma map_swap: "i < length xs \<Longrightarrow> j < length xs \<Longrightarrow> map f (swap i j xs) = swap i j (map f xs)"
  by (simp add: swap_def map_update)

lemma distinct_swap_fighters: "i < length xs \<Longrightarrow> j < length xs \<Longrightarrow> distinct (swap i j xs) = distinct xs"
  by (simp add: swap_def)

lemma shuffleFrom_perm:
  "i < length xs \<Longrightarrow>
   length (shuffleFrom rng i xs) = length xs
   \<and> set (shuffleFrom rng i xs) = set xs
   \<and> distinct (map f (shuffleFrom rng i xs)) = distinct (map f xs)"
proof (induction i arbitrary: xs)
  case 0
  then show ?case by simp
next
  case (Suc i)
  let ?j = "rng (Suc i) mod Suc (Suc i)"
  have j: "?j < length xs" using Suc.prems
    by (meson less_Suc_eq_le less_le_trans mod_less_divisor zero_less_Suc not_less)
  have i: "i < length (swap (Suc i) ?j xs)" using Suc.prems by (simp add: length_swap)
  from Suc.IH [OF i] show ?case
    using Suc.prems j
    by (simp add: length_swap set_swap_fighters map_swap distinct_swap_fighters)
qed

lemma shuffle_perm:
  "length (shuffle rng xs) = length xs \<and> set (shuffle rng xs) = set xs
   \<and> distinct (map f (shuffle rng xs)) = distinct (map f xs)"
proof (cases xs)
  case Nil
  then show ?thesis by (simp add: shuffle_def)
next
  case (Cons x xs')
  then have "length xs - 1 < length xs" by simp
  from shuffleFrom_perm [OF this] show ?thesis by (simp add: shuffle_def)
qed

lemma six_elements: "length s = 6 \<Longrightarrow> [s ! 0, s ! 1, s ! 2, s ! 3, s ! 4, s ! 5] = s"
proof -
  assume l: "length s = 6"
  then obtain a b c d e f where "s = [a, b, c, d, e, f]"
    by (auto simp: length_Suc_conv numeral_eq_Suc)
  then show ?thesis by simp
qed

lemma count_list_distinct: "distinct xs \<Longrightarrow> x \<in> set xs \<Longrightarrow> count_list xs x = 1"
  by (induction xs) auto

text \<open>
  C6. For every draw over a roster of six fighters with distinct codes, whatever the
  random source, \<open>draw\<close> succeeds and the pairing is a perfect matching: exactly three
  pairs, which are the consecutive index pairs 0-1, 2-3, 4-5 of the shuffled roster; the
  six members of the pairs are the shuffled roster, have distinct codes and are the
  fighters of the roster, each appearing exactly once.
\<close>

theorem draw_perfect_matching:
  assumes "length fighters = 6" and "distinct (map code fighters)"
  shows "\<exists>prs. draw fighters rng = Inr prs
      \<and> length prs = 3
      \<and> prs = [(shuffle rng fighters ! 0, shuffle rng fighters ! 1),
               (shuffle rng fighters ! 2, shuffle rng fighters ! 3),
               (shuffle rng fighters ! 4, shuffle rng fighters ! 5)]
      \<and> members prs = shuffle rng fighters
      \<and> length (members prs) = 6
      \<and> distinct (map code (members prs))
      \<and> set (members prs) = set fighters
      \<and> (\<forall>f \<in> set fighters. count_list (members prs) f = 1)"
proof -
  let ?s = "shuffle rng fighters"
  let ?prs = "[(?s ! 0, ?s ! 1), (?s ! 2, ?s ! 3), (?s ! 4, ?s ! 5)]"
  have len: "length ?s = 6" and set: "set ?s = set fighters"
    and dist: "distinct (map code ?s)"
    using shuffle_perm [of rng fighters code] assms by simp_all
  have d: "draw fighters rng = Inr ?prs"
    using assms(1) by (simp add: draw_def Let_def)
  have m: "members ?prs = ?s"
    using six_elements [OF len] by (simp add: members_def)
  have "distinct ?s" using dist by (simp add: distinct_map)
  then have once: "\<forall>f \<in> set fighters. count_list (members ?prs) f = 1"
    using set m by (simp add: count_list_distinct)
  show ?thesis
    using d m len dist set once by simp
qed


theorem draw_perfect_matching_witness:
  "length sampleRoster = 6 \<and> distinct (map code sampleRoster)
   \<and> draw sampleRoster sampleRng = Inr samplePairing
   \<and> length samplePairing = 3
   \<and> set (members samplePairing) = set sampleRoster
   \<and> distinct (map code (members samplePairing))"
proof -
  have l: "length sampleRoster = 6" by (simp add: sampleRoster_def)
  have d: "distinct (map code sampleRoster)" by (simp add: sampleRoster_def sampleFighter_def)
  have run: "draw sampleRoster sampleRng = Inr samplePairing" by code_simp
  from draw_perfect_matching [OF l d, of sampleRng] run l d show ?thesis by auto
qed

lemma newConference_resolved: "resolvedUpTo a b 0 (newConference a b)"
  by (simp add: resolvedUpTo_def newConference_def pendingSlot_def)

lemma resolved_next:
  assumes "resolvedUpTo a b k slots" and "k < 6"
  shows "nextIndex slots = k" and "\<not> isComplete slots"
proof -
  have len: "length slots = 6" using assms(1) by (simp add: resolvedUpTo_def)
  have before: "\<And>i. i < k \<Longrightarrow> i < length slots \<Longrightarrow> isTerminal (slots ! i)"
    using assms(1) by (simp add: resolvedUpTo_def isTerminal_def)
  have at: "\<not> isTerminal (slots ! k)"
    using assms by (simp add: resolvedUpTo_def isTerminal_def)
  have "takeWhile isTerminal slots = take k slots"
    by (rule takeWhile_eq_take_P_nth) (use before at in auto)
  then show "nextIndex slots = k" using len assms(2) by (simp add: nextIndex_def)
  show "\<not> isComplete slots"
    using at len assms(2) by (auto simp: isComplete_def list_all_length)
qed

lemma resolved_complete:
  assumes "resolvedUpTo a b 6 slots"
  shows "isComplete slots"
  using assms by (simp add: resolvedUpTo_def isComplete_def list_all_length isTerminal_def)

lemma resolved_generated:
  assumes "resolvedUpTo a b k slots" and "k < 6"
  shows "resolvedUpTo a b (Suc k) (slots[k := (slots ! k)\<lparr>status := Generated, artifact := x\<rparr>])"
  using assms by (auto simp: resolvedUpTo_def nth_list_update less_Suc_eq)

lemma resolved_failed:
  assumes "resolvedUpTo a b k slots" and "k < 6"
  shows "resolvedUpTo a b k (slots[k := (slots ! k)\<lparr>status := Failed\<rparr>])"
  using assms by (auto simp: resolvedUpTo_def nth_list_update)

lemma conferenceOf_storeSlot [simp]:
  "conferenceOf (storeSlot session pid slots i slot) pid a b = slots[i := slot]"
  by (simp add: conferenceOf_def storeSlot_def)

lemma pairing_storeSlot [simp]: "pairing (storeSlot session pid slots i slot) = pairing session"
  by (simp add: storeSlot_def)

lemma advance_generated:
  assumes "pairing session = Some prs" and "pairOf prs pid = Some (a, b)"
    and "resolvedUpTo a b k (conferenceOf session pid a b)" and "k < 6"
    and "generateText gw (contextFor a b (conferenceOf session pid a b ! k)) = Inr t"
  shows "advance gw session pid =
    (Inr ((conferenceOf session pid a b ! k)
          \<lparr>status := Generated,
           artifact := Some (artifactOf t (generateImage gw
              (contextFor a b (conferenceOf session pid a b ! k)) (referenceAssets a b)))\<rparr>),
     storeSlot session pid (conferenceOf session pid a b) k
       ((conferenceOf session pid a b ! k)
          \<lparr>status := Generated,
           artifact := Some (artifactOf t (generateImage gw
              (contextFor a b (conferenceOf session pid a b ! k)) (referenceAssets a b)))\<rparr>),
     [TextCall (contextFor a b (conferenceOf session pid a b ! k)),
      ImageCall (contextFor a b (conferenceOf session pid a b ! k)) (referenceAssets a b)])"
  using assms(1,2,5) resolved_next [OF assms(3,4)]
  by (simp add: advance_def Let_def)

lemma advance_failed:
  assumes "pairing session = Some prs" and "pairOf prs pid = Some (a, b)"
    and "resolvedUpTo a b k (conferenceOf session pid a b)" and "k < 6"
    and "generateText gw (contextFor a b (conferenceOf session pid a b ! k)) = Inl e"
  shows "advance gw session pid =
    (Inl (TextGenerationFailed e),
     storeSlot session pid (conferenceOf session pid a b) k
       ((conferenceOf session pid a b ! k)\<lparr>status := Failed\<rparr>),
     [TextCall (contextFor a b (conferenceOf session pid a b ! k))])"
  using assms(1,2,5) resolved_next [OF assms(3,4)]
  by (simp add: advance_def Let_def)

lemma advance_complete:
  assumes "pairing session = Some prs" and "pairOf prs pid = Some (a, b)"
    and "resolvedUpTo a b 6 (conferenceOf session pid a b)"
  shows "advance gw session pid = (Inl ConferenceCompleteError, session, [])"
  using assms(1,2) resolved_complete [OF assms(3)]
  by (simp add: advance_def Let_def)

lemma advance_preserves:
  assumes "pairing session = Some prs" and "pairOf prs pid = Some (a, b)"
    and "resolvedUpTo a b k (conferenceOf session pid a b)"
    and "advance gw session pid = (r, session', calls)"
  shows "pairing session' = Some prs \<and> (\<exists>k'. resolvedUpTo a b k' (conferenceOf session' pid a b))"
proof (cases "k < 6")
  case False
  then have "k = 6" using assms(3) by (simp add: resolvedUpTo_def)
  then show ?thesis using advance_complete [OF assms(1,2), of gw] assms(1,3,4) by auto
next
  case True
  show ?thesis
  proof (cases "generateText gw (contextFor a b (conferenceOf session pid a b ! k))")
    case (Inl e)
    from advance_failed [OF assms(1,2,3) True Inl] assms(4)
    have "session' = storeSlot session pid (conferenceOf session pid a b) k
       ((conferenceOf session pid a b ! k)\<lparr>status := Failed\<rparr>)" by simp
    then show ?thesis using assms(1) resolved_failed [OF assms(3) True] by auto
  next
    case (Inr t)
    from advance_generated [OF assms(1,2,3) True Inr] assms(4)
    have "session' = storeSlot session pid (conferenceOf session pid a b) k
       ((conferenceOf session pid a b ! k)
          \<lparr>status := Generated,
           artifact := Some (artifactOf t (generateImage gw
              (contextFor a b (conferenceOf session pid a b ! k)) (referenceAssets a b)))\<rparr>)" by simp
    then show ?thesis using assms(1) resolved_generated [OF assms(3) True] by auto
  qed
qed

lemma advanceAll_preserves:
  assumes "pairing session = Some prs" and "pairOf prs pid = Some (a, b)"
    and "resolvedUpTo a b k (conferenceOf session pid a b)"
    and "advanceAll gws session pid = (rs, session', calls)"
  shows "pairing session' = Some prs \<and> (\<exists>k'. resolvedUpTo a b k' (conferenceOf session' pid a b))"
  using assms
proof (induction gws arbitrary: session k rs calls session')
  case Nil
  then show ?case by auto
next
  case (Cons gw gws)
  obtain r s1 c1 where a1: "advance gw session pid = (r, s1, c1)"
    by (cases "advance gw session pid") auto
  obtain rs2 s2 c2 where a2: "advanceAll gws s1 pid = (rs2, s2, c2)"
    by (cases "advanceAll gws s1 pid") auto
  from Cons.prems(4) a1 a2 have s': "session' = s2" by simp
  from advance_preserves [OF Cons.prems(1,2,3) a1]
  obtain k' where "pairing s1 = Some prs" "resolvedUpTo a b k' (conferenceOf s1 pid a b)" by blast
  from Cons.IH [OF this(1) Cons.prems(2) this(2) a2] s' show ?case by simp
qed


lemma resolved_nextIndex:
  assumes "resolvedUpTo a b k slots"
  shows "nextIndex slots = k"
proof (cases "k < 6")
  case True
  then show ?thesis using resolved_next(1) [OF assms] by simp
next
  case False
  then have k: "k = 6" using assms by (simp add: resolvedUpTo_def)
  have "\<forall>x \<in> set slots. isTerminal x"
    using resolved_complete assms k by (auto simp: isComplete_def list_all_iff)
  then have tw: "takeWhile isTerminal slots = slots" by simp
  have len: "length slots = 6" using assms by (simp add: resolvedUpTo_def)
  show ?thesis unfolding nextIndex_def tw using len k by simp
qed

lemma resolved_unique:
  assumes "resolvedUpTo a b k slots" and "resolvedUpTo a b k' slots"
  shows "k = k'"
  using resolved_nextIndex [OF assms(1)] resolved_nextIndex [OF assms(2)] by simp

lemma contextFor_update [simp]:
  "contextFor a b (slot\<lparr>status := st, artifact := x\<rparr>) = contextFor a b slot"
  by (simp add: contextFor_def)

lemma advanceAll_in_order:
  assumes "pairing session = Some prs" and "pairOf prs pid = Some (a, b)"
    and "resolvedUpTo a b k (conferenceOf session pid a b)"
    and "k + length gws = 6"
    and "\<forall>gw \<in> set gws. \<forall>ctx. \<exists>t. generateText gw ctx = Inr t"
    and "advanceAll gws session pid = (rs, session', calls)"
  shows "length rs = length gws
    \<and> (\<forall>j < length gws. \<exists>slot t.
          rs ! j = Inr slot
          \<and> roundNumber slot = (k + j) div 2
          \<and> speaker slot = (if even (k + j) then a else b)
          \<and> status slot = Generated
          \<and> generateText (gws ! j) (contextFor a b slot) = Inr t
          \<and> artifact slot = Some (artifactOf t
                (generateImage (gws ! j) (contextFor a b slot) (referenceAssets a b)))
          \<and> conferenceOf session' pid a b ! (k + j) = slot)
    \<and> pairing session' = Some prs
    \<and> resolvedUpTo a b 6 (conferenceOf session' pid a b)
    \<and> (\<forall>i < k. conferenceOf session' pid a b ! i = conferenceOf session pid a b ! i)"
  using assms
proof (induction gws arbitrary: session k rs calls session')
  case Nil
  then show ?case by auto
next
  case (Cons gw gws)
  let ?conf = "conferenceOf session pid a b"
  let ?ctx = "contextFor a b (?conf ! k)"
  have k6: "k < 6" using Cons.prems(4) by simp
  obtain t where t: "generateText gw ?ctx = Inr t"
    using Cons.prems(5) by (meson list.set_intros(1))
  let ?slot = "(?conf ! k)\<lparr>status := Generated,
      artifact := Some (artifactOf t (generateImage gw ?ctx (referenceAssets a b)))\<rparr>"
  let ?s1 = "storeSlot session pid ?conf k ?slot"
  have a1: "advance gw session pid
      = (Inr ?slot, ?s1, [TextCall ?ctx, ImageCall ?ctx (referenceAssets a b)])"
    by (rule advance_generated [OF Cons.prems(1,2,3) k6 t])
  obtain rs2 s2 c2 where a2: "advanceAll gws ?s1 pid = (rs2, s2, c2)"
    by (cases "advanceAll gws ?s1 pid") auto
  from Cons.prems(6) a1 a2 have rs: "rs = Inr ?slot # rs2" and s': "session' = s2"
    by simp_all
  have p1: "pairing ?s1 = Some prs" using Cons.prems(1) by simp
  have inv1: "resolvedUpTo a b (Suc k) (conferenceOf ?s1 pid a b)"
    using resolved_generated [OF Cons.prems(3) k6] by simp
  have n1: "Suc k + length gws = 6" using Cons.prems(4) by simp
  have t1: "\<forall>gw \<in> set gws. \<forall>ctx. \<exists>t. generateText gw ctx = Inr t"
    using Cons.prems(5) by simp
  note ih = Cons.IH [OF p1 Cons.prems(2) inv1 n1 t1 a2]
  have len6: "length ?conf = 6" using Cons.prems(3) by (simp add: resolvedUpTo_def)
  have keep: "conferenceOf s2 pid a b ! i = (?conf[k := ?slot]) ! i" if "i < Suc k" for i
    using ih that by simp
  have here: "conferenceOf s2 pid a b ! k = ?slot"
    using keep [of k] len6 k6 by simp
  have before: "\<forall>i < k. conferenceOf s2 pid a b ! i = ?conf ! i"
    using keep by (simp add: nth_list_update)
  have rounds: "roundNumber (?conf ! k) = k div 2" "speaker (?conf ! k) = (if even k then a else b)"
    using Cons.prems(3) k6 by (simp_all add: resolvedUpTo_def)
  have first: "\<exists>slot t. (Inr ?slot # rs2) ! 0 = Inr slot
          \<and> roundNumber slot = (k + 0) div 2
          \<and> speaker slot = (if even (k + 0) then a else b)
          \<and> status slot = Generated
          \<and> generateText ((gw # gws) ! 0) (contextFor a b slot) = Inr t
          \<and> artifact slot = Some (artifactOf t
                (generateImage ((gw # gws) ! 0) (contextFor a b slot) (referenceAssets a b)))
          \<and> conferenceOf s2 pid a b ! (k + 0) = slot"
    using rounds t here by (intro exI [of _ ?slot] exI [of _ t]) simp
  have later: "\<exists>slot t. (Inr ?slot # rs2) ! Suc j = Inr slot
          \<and> roundNumber slot = (k + Suc j) div 2
          \<and> speaker slot = (if even (k + Suc j) then a else b)
          \<and> status slot = Generated
          \<and> generateText ((gw # gws) ! Suc j) (contextFor a b slot) = Inr t
          \<and> artifact slot = Some (artifactOf t
                (generateImage ((gw # gws) ! Suc j) (contextFor a b slot) (referenceAssets a b)))
          \<and> conferenceOf s2 pid a b ! (k + Suc j) = slot" if "j < length gws" for j
    using ih that by simp
  have all: "\<forall>j < length (gw # gws). \<exists>slot t. (Inr ?slot # rs2) ! j = Inr slot
          \<and> roundNumber slot = (k + j) div 2
          \<and> speaker slot = (if even (k + j) then a else b)
          \<and> status slot = Generated
          \<and> generateText ((gw # gws) ! j) (contextFor a b slot) = Inr t
          \<and> artifact slot = Some (artifactOf t
                (generateImage ((gw # gws) ! j) (contextFor a b slot) (referenceAssets a b)))
          \<and> conferenceOf s2 pid a b ! (k + j) = slot"
  proof (intro allI impI)
    fix j assume "j < length (gw # gws)"
    then show "\<exists>slot t. (Inr ?slot # rs2) ! j = Inr slot
          \<and> roundNumber slot = (k + j) div 2
          \<and> speaker slot = (if even (k + j) then a else b)
          \<and> status slot = Generated
          \<and> generateText ((gw # gws) ! j) (contextFor a b slot) = Inr t
          \<and> artifact slot = Some (artifactOf t
                (generateImage ((gw # gws) ! j) (contextFor a b slot) (referenceAssets a b)))
          \<and> conferenceOf s2 pid a b ! (k + j) = slot"
      using first later by (cases j) simp_all
  qed
  have "length rs = length (gw # gws)" using rs ih by simp
  moreover have "pairing session' = Some prs" using ih s' by simp
  moreover have "resolvedUpTo a b 6 (conferenceOf session' pid a b)" using ih s' by simp
  ultimately show ?case using all before rs s' by simp
qed

lemma advanceAll_complete:
  assumes "pairing session = Some prs" and "pairOf prs pid = Some (a, b)"
    and "resolvedUpTo a b 6 (conferenceOf session pid a b)"
  shows "advanceAll gws session pid = (replicate (length gws) (Inl ConferenceCompleteError), session, [])"
  by (induction gws) (simp_all add: advance_complete [OF assms])


lemma advanceAll_yields_in_order:
  assumes "pairing session = Some prs" and "pairOf prs pid = Some (a, b)"
    and "resolvedUpTo a b k (conferenceOf session pid a b)"
    and "advanceAll gws session pid = (rs, session', calls)"
  shows "\<exists>k'. k \<le> k' \<and> resolvedUpTo a b k' (conferenceOf session' pid a b)
      \<and> map (\<lambda>slot. (speaker slot, roundNumber slot)) (yielded rs)
          = map (\<lambda>j. (if even j then a else b, j div 2)) [k..<k']"
  using assms
proof (induction gws arbitrary: session k rs calls session')
  case Nil
  then show ?case by auto
next
  case (Cons gw gws)
  let ?conf = "conferenceOf session pid a b"
  let ?ctx = "contextFor a b (?conf ! k)"
  obtain r s1 c1 where a1: "advance gw session pid = (r, s1, c1)"
    by (cases "advance gw session pid") auto
  obtain rs2 s2 c2 where a2: "advanceAll gws s1 pid = (rs2, s2, c2)"
    by (cases "advanceAll gws s1 pid") auto
  from Cons.prems(4) a1 a2 have rs: "rs = r # rs2" and s': "session' = s2" by simp_all
  show ?case
  proof (cases "k < 6")
    case False
    then have k6: "k = 6" using Cons.prems(3) by (simp add: resolvedUpTo_def)
    from advance_complete [OF Cons.prems(1,2), of gw] Cons.prems(3) k6 a1
    have r: "r = Inl ConferenceCompleteError" and s1: "s1 = session" by simp_all
    from Cons.IH [OF Cons.prems(1,2,3) a2 [unfolded s1]] rs r s' show ?thesis by simp
  next
    case True
    show ?thesis
    proof (cases "generateText gw ?ctx")
      case (Inl e)
      from advance_failed [OF Cons.prems(1,2,3) True Inl] a1
      have r: "r = Inl (TextGenerationFailed e)"
        and s1: "s1 = storeSlot session pid ?conf k ((?conf ! k)\<lparr>status := Failed\<rparr>)"
        by simp_all
      have p1: "pairing s1 = Some prs" using Cons.prems(1) s1 by simp
      have inv1: "resolvedUpTo a b k (conferenceOf s1 pid a b)"
        using resolved_failed [OF Cons.prems(3) True] s1 by simp
      from Cons.IH [OF p1 Cons.prems(2) inv1 a2] rs r s' show ?thesis by simp
    next
      case (Inr t)
      let ?slot = "(?conf ! k)\<lparr>status := Generated,
          artifact := Some (artifactOf t (generateImage gw ?ctx (referenceAssets a b)))\<rparr>"
      from advance_generated [OF Cons.prems(1,2,3) True Inr] a1
      have r: "r = Inr ?slot" and s1: "s1 = storeSlot session pid ?conf k ?slot"
        by simp_all
      have p1: "pairing s1 = Some prs" using Cons.prems(1) s1 by simp
      have inv1: "resolvedUpTo a b (Suc k) (conferenceOf s1 pid a b)"
        using resolved_generated [OF Cons.prems(3) True] s1 by simp
      from Cons.IH [OF p1 Cons.prems(2) inv1 a2] s'
      obtain k' where k': "Suc k \<le> k'" "resolvedUpTo a b k' (conferenceOf session' pid a b)"
        and m: "map (\<lambda>slot. (speaker slot, roundNumber slot)) (yielded rs2)
          = map (\<lambda>j. (if even j then a else b, j div 2)) [Suc k..<k']"
        by blast
      have here: "(speaker ?slot, roundNumber ?slot) = (if even k then a else b, k div 2)"
        using Cons.prems(3) True by (simp add: resolvedUpTo_def)
      have upt: "[k..<k'] = k # [Suc k..<k']" using k'(1) by (simp add: upt_conv_Cons)
      have "map (\<lambda>slot. (speaker slot, roundNumber slot)) (yielded rs)
          = map (\<lambda>j. (if even j then a else b, j div 2)) [k..<k']"
        unfolding upt rs r using m here by simp
      then show ?thesis using k' by (intro exI [of _ k']) simp
    qed
  qed
qed

lemma order_prefix:
  assumes "k \<le> 6"
  shows "map (\<lambda>j. (if even j then a else b, j div 2)) [0..<k]
     = take k [(a, 0), (b, 0), (a, 1), (b, 1), (a, 2), (b, 2)]"
proof -
  have six: "map (\<lambda>j. (if even j then a else b, j div 2)) [0..<6]
      = [(a, 0), (b, 0), (a, 1), (b, 1), (a, 2), (b, 2)]"
  proof -
    have "[0..<6] = [0, 1, 2, 3, 4, 5::nat]" by code_simp
    then show ?thesis by simp
  qed
  have "[0..<k] = take k [0..<6]" using assms by simp
  then have "map (\<lambda>j. (if even j then a else b, j div 2)) [0..<k]
      = take k (map (\<lambda>j. (if even j then a else b, j div 2)) [0..<6])"
    by (simp only: take_map)
  then show ?thesis by (simp only: six)
qed

lemma advanceAll_six_texts:
  assumes "pairing session = Some prs" and "pairOf prs pid = Some (a, b)"
    and "conferences session pid = None"
    and "length gws = 6"
    and "\<forall>gw \<in> set gws. \<forall>ctx. \<exists>t. generateText gw ctx = Inr t"
    and "advanceAll gws session pid = (rs, session', calls)"
  shows "map (map_sum id (\<lambda>slot. (speaker slot, roundNumber slot, status slot))) rs
       = [Inr (a, 0, Generated), Inr (b, 0, Generated), Inr (a, 1, Generated),
          Inr (b, 1, Generated), Inr (a, 2, Generated), Inr (b, 2, Generated)]
    \<and> (\<forall>j < 6. rs ! j = Inr (conferenceOf session' pid a b ! j))
    \<and> isComplete (conferenceOf session' pid a b)
    \<and> (\<forall>gws'. advanceAll gws' session' pid
          = (replicate (length gws') (Inl ConferenceCompleteError), session', []))"
proof -
  let ?G = "map_sum id (\<lambda>slot. (speaker slot, roundNumber slot, status slot))
              :: ConferenceError + Slot \<Rightarrow> ConferenceError + Fighter \<times> nat \<times> SlotStatus"
  have inv0: "resolvedUpTo a b 0 (conferenceOf session pid a b)"
    using assms(3) newConference_resolved by (simp add: conferenceOf_def)
  have n: "0 + length gws = 6" using assms(4) by simp
  note run = advanceAll_in_order [OF assms(1,2) inv0 n assms(5,6)]
  have len: "length rs = 6" using run assms(4) by simp
  have slot: "\<exists>slot. rs ! j = Inr slot \<and> roundNumber slot = j div 2
      \<and> speaker slot = (if even j then a else b) \<and> status slot = Generated
      \<and> conferenceOf session' pid a b ! j = slot" if "j < 6" for j
  proof -
    from run that assms(4) obtain slot t where
      "rs ! j = Inr slot \<and> roundNumber slot = (0 + j) div 2
        \<and> speaker slot = (if even (0 + j) then a else b) \<and> status slot = Generated
        \<and> generateText (gws ! j) (contextFor a b slot) = Inr t
        \<and> artifact slot = Some (artifactOf t
              (generateImage (gws ! j) (contextFor a b slot) (referenceAssets a b)))
        \<and> conferenceOf session' pid a b ! (0 + j) = slot"
      by (metis (no_types, lifting))
    then show ?thesis by auto
  qed
  have g: "?G (rs ! j) = Inr (if even j then a else b, j div 2, Generated)" if "j < 6" for j
    using slot [OF that] by auto
  have "map ?G rs = map ?G [rs ! 0, rs ! 1, rs ! 2, rs ! 3, rs ! 4, rs ! 5]"
    using six_elements [OF len] by simp
  also have "\<dots> = [Inr (a, 0, Generated), Inr (b, 0, Generated), Inr (a, 1, Generated),
          Inr (b, 1, Generated), Inr (a, 2, Generated), Inr (b, 2, Generated)]"
    using g [of 0] g [of 1] g [of 2] g [of 3] g [of 4] g [of 5] by simp
  finally have order: "map ?G rs = [Inr (a, 0, Generated), Inr (b, 0, Generated), Inr (a, 1, Generated),
          Inr (b, 1, Generated), Inr (a, 2, Generated), Inr (b, 2, Generated)]" .
  have stored: "\<forall>j < 6. rs ! j = Inr (conferenceOf session' pid a b ! j)"
    using slot by auto
  have p': "pairing session' = Some prs" and inv6: "resolvedUpTo a b 6 (conferenceOf session' pid a b)"
    using run by simp_all
  have complete: "isComplete (conferenceOf session' pid a b)"
    by (rule resolved_complete [OF inv6])
  have after: "\<forall>gws'. advanceAll gws' session' pid
          = (replicate (length gws') (Inl ConferenceCompleteError), session', [])"
    using advanceAll_complete [OF p' assms(2) inv6] by simp
  from order stored complete after show ?thesis by simp
qed


text \<open>
  C7 as stated fails. When text generation fails in the second of six calls, that call
  returns the error and the third call resolves the same slot: the six calls return five
  slots and the conference is not complete.
\<close>

theorem six_advances_in_order_counterexample:
  "map (map_sum id (\<lambda>slot. (speaker slot, roundNumber slot, status slot)))
       (fst (advanceAll [talkative, textTimedOut, talkative, talkative, talkative, talkative]
               sampleSession Pair1))
     = [Inr (sampleFighter ''bohdan'', 0, Generated), Inl (TextGenerationFailed Transient),
        Inr (sampleFighter ''oleg'', 0, Generated), Inr (sampleFighter ''bohdan'', 1, Generated),
        Inr (sampleFighter ''oleg'', 1, Generated), Inr (sampleFighter ''bohdan'', 2, Generated)]
   \<and> length (yielded (fst (advanceAll
         [talkative, textTimedOut, talkative, talkative, talkative, talkative]
         sampleSession Pair1))) = 5
   \<and> \<not> isComplete (conferenceOf
         (fst (snd (advanceAll [talkative, textTimedOut, talkative, talkative, talkative, talkative]
            sampleSession Pair1)))
         Pair1 (sampleFighter ''bohdan'') (sampleFighter ''oleg''))
   \<and> pairing sampleSession = Some samplePairing
   \<and> pairOf samplePairing Pair1 = Some (sampleFighter ''bohdan'', sampleFighter ''oleg'')"
  by code_simp

text \<open>
  C7, amended. For a pair of a drawn pairing whose conference is not started, six calls of
  \<open>advance\<close> in sequence, when text generation succeeds in each of them, return the six
  slots, generated, in strict order, with the speakers A,B,A,B,A,B and the rounds
  0,0,1,1,2,2, and leave the conference complete. Whatever the gateway does, the slots
  returned by any sequence of calls come in that order, never more than six. Once the
  conference is complete every further call fails with \<open>ConferenceCompleteError\<close>, leaves
  the session as it is and makes no call to the gateway.
\<close>

theorem six_advances_in_order:
  assumes "pairing session = Some prs" and "pairOf prs pid = Some (a, b)"
    and "conferences session pid = None"
    and "advanceAll gws session pid = (rs, session', calls)"
  shows "map (\<lambda>slot. (speaker slot, roundNumber slot)) (yielded rs)
       = take (length (yielded rs)) [(a, 0), (b, 0), (a, 1), (b, 1), (a, 2), (b, 2)]
    \<and> length (yielded rs) \<le> 6
    \<and> (length gws = 6 \<and> (\<forall>gw \<in> set gws. \<forall>ctx. \<exists>t. generateText gw ctx = Inr t) \<longrightarrow>
         map (map_sum id (\<lambda>slot. (speaker slot, roundNumber slot, status slot))) rs
           = [Inr (a, 0, Generated), Inr (b, 0, Generated), Inr (a, 1, Generated),
              Inr (b, 1, Generated), Inr (a, 2, Generated), Inr (b, 2, Generated)]
         \<and> (\<forall>j < 6. rs ! j = Inr (conferenceOf session' pid a b ! j))
         \<and> isComplete (conferenceOf session' pid a b))
    \<and> (isComplete (conferenceOf session' pid a b) \<longrightarrow>
         (\<forall>gw. advance gw session' pid = (Inl ConferenceCompleteError, session', []))
         \<and> (\<forall>gws'. advanceAll gws' session' pid
               = (replicate (length gws') (Inl ConferenceCompleteError), session', [])))"
proof -
  let ?final = "conferenceOf session' pid a b"
  let ?order = "[(a, 0::nat), (b, 0), (a, 1), (b, 1), (a, 2), (b, 2)]"
  have inv0: "resolvedUpTo a b 0 (conferenceOf session pid a b)"
    using assms(3) newConference_resolved by (simp add: conferenceOf_def)
  from advanceAll_yields_in_order [OF assms(1,2) inv0 assms(4)]
  obtain k' where inv': "resolvedUpTo a b k' ?final"
    and m: "map (\<lambda>slot. (speaker slot, roundNumber slot)) (yielded rs)
          = map (\<lambda>j. (if even j then a else b, j div 2)) [0..<k']"
    by blast
  have k': "k' \<le> 6" using inv' by (simp add: resolvedUpTo_def)
  have "length (map (\<lambda>slot. (speaker slot, roundNumber slot)) (yielded rs))
      = length (map (\<lambda>j. (if even j then a else b, j div 2)) [0..<k'])"
    by (simp only: m)
  then have len: "length (yielded rs) = k'" by simp
  have order: "map (\<lambda>slot. (speaker slot, roundNumber slot)) (yielded rs)
       = take (length (yielded rs)) ?order"
    unfolding len m by (rule order_prefix [OF k'])
  have bound: "length (yielded rs) \<le> 6" using len k' by simp
  have six: "length gws = 6 \<and> (\<forall>gw \<in> set gws. \<forall>ctx. \<exists>t. generateText gw ctx = Inr t) \<longrightarrow>
         map (map_sum id (\<lambda>slot. (speaker slot, roundNumber slot, status slot))) rs
           = [Inr (a, 0, Generated), Inr (b, 0, Generated), Inr (a, 1, Generated),
              Inr (b, 1, Generated), Inr (a, 2, Generated), Inr (b, 2, Generated)]
         \<and> (\<forall>j < 6. rs ! j = Inr (?final ! j))
         \<and> isComplete ?final"
  proof
    assume h: "length gws = 6 \<and> (\<forall>gw \<in> set gws. \<forall>ctx. \<exists>t. generateText gw ctx = Inr t)"
    then have l: "length gws = 6" and t: "\<forall>gw \<in> set gws. \<forall>ctx. \<exists>t. generateText gw ctx = Inr t"
      by simp_all
    from advanceAll_six_texts [OF assms(1,2,3) l t assms(4)]
    show "map (map_sum id (\<lambda>slot. (speaker slot, roundNumber slot, status slot))) rs
           = [Inr (a, 0, Generated), Inr (b, 0, Generated), Inr (a, 1, Generated),
              Inr (b, 1, Generated), Inr (a, 2, Generated), Inr (b, 2, Generated)]
         \<and> (\<forall>j < 6. rs ! j = Inr (?final ! j))
         \<and> isComplete ?final"
      by simp
  qed
  have p': "pairing session' = Some prs"
    using advanceAll_preserves [OF assms(1,2) inv0 assms(4)] by simp
  have after: "isComplete ?final \<longrightarrow>
         (\<forall>gw. advance gw session' pid = (Inl ConferenceCompleteError, session', []))
         \<and> (\<forall>gws'. advanceAll gws' session' pid
               = (replicate (length gws') (Inl ConferenceCompleteError), session', []))"
  proof
    assume c: "isComplete ?final"
    have "k' = 6"
    proof (rule ccontr)
      assume "k' \<noteq> 6"
      then have "k' < 6" using k' by simp
      from resolved_next(2) [OF inv' this] c show False by simp
    qed
    then have inv6: "resolvedUpTo a b 6 ?final" using inv' by simp
    show "(\<forall>gw. advance gw session' pid = (Inl ConferenceCompleteError, session', []))
         \<and> (\<forall>gws'. advanceAll gws' session' pid
               = (replicate (length gws') (Inl ConferenceCompleteError), session', []))"
      using advance_complete [OF p' assms(2) inv6] advanceAll_complete [OF p' assms(2) inv6]
      by simp
  qed
  from order bound six after show ?thesis by (intro conjI) assumption+
qed

theorem six_advances_in_order_witness:
  "map (map_sum id (\<lambda>slot. (speaker slot, roundNumber slot, status slot)))
       (fst (advanceAll [talkative, imageRefused, talkative, talkative, imageRefused, talkative]
               sampleSession Pair1))
     = [Inr (sampleFighter ''bohdan'', 0, Generated), Inr (sampleFighter ''oleg'', 0, Generated),
        Inr (sampleFighter ''bohdan'', 1, Generated), Inr (sampleFighter ''oleg'', 1, Generated),
        Inr (sampleFighter ''bohdan'', 2, Generated), Inr (sampleFighter ''oleg'', 2, Generated)]
   \<and> isComplete (conferenceOf
        (fst (snd (advanceAll [talkative, imageRefused, talkative, talkative, imageRefused, talkative]
               sampleSession Pair1)))
        Pair1 (sampleFighter ''bohdan'') (sampleFighter ''oleg''))
   \<and> fst (advanceAll [talkative, imageRefused]
            (fst (snd (advanceAll [talkative, imageRefused, talkative, talkative, imageRefused, talkative]
               sampleSession Pair1))) Pair1)
     = [Inl ConferenceCompleteError, Inl ConferenceCompleteError]
   \<and> length (yielded (fst (advanceAll
        [talkative, imageRefused, talkative, talkative, imageRefused, talkative]
               sampleSession Pair1))) \<le> 6"
proof -
  let ?gws = "[talkative, imageRefused, talkative, talkative, imageRefused, talkative]"
  let ?run = "advanceAll ?gws sampleSession Pair1"
  have p: "pairing sampleSession = Some samplePairing" by (simp add: sampleSession_def)
  have q: "pairOf samplePairing Pair1 = Some (sampleFighter ''bohdan'', sampleFighter ''oleg'')"
    by (simp add: pairOf_def samplePairing_def)
  have c: "conferences sampleSession Pair1 = None" by (simp add: sampleSession_def)
  have l: "length ?gws = 6" by simp
  have t: "\<forall>gw \<in> set ?gws. \<forall>ctx. \<exists>t. generateText gw ctx = Inr t"
    by (simp add: talkative_def imageRefused_def)
  have r: "?run = (fst ?run, fst (snd ?run), snd (snd ?run))" by simp
  note res = six_advances_in_order [OF p q c r]
  from res l t have six: "map (map_sum id (\<lambda>slot. (speaker slot, roundNumber slot, status slot))) (fst ?run)
     = [Inr (sampleFighter ''bohdan'', 0, Generated), Inr (sampleFighter ''oleg'', 0, Generated),
        Inr (sampleFighter ''bohdan'', 1, Generated), Inr (sampleFighter ''oleg'', 1, Generated),
        Inr (sampleFighter ''bohdan'', 2, Generated), Inr (sampleFighter ''oleg'', 2, Generated)]"
    and fin: "isComplete (conferenceOf (fst (snd ?run)) Pair1
        (sampleFighter ''bohdan'') (sampleFighter ''oleg''))"
    by blast+
  from res fin have "advanceAll [talkative, imageRefused] (fst (snd ?run)) Pair1
      = (replicate (length [talkative, imageRefused]) (Inl ConferenceCompleteError), fst (snd ?run), [])"
    by blast
  then have after: "fst (advanceAll [talkative, imageRefused] (fst (snd ?run)) Pair1)
      = [Inl ConferenceCompleteError, Inl ConferenceCompleteError]"
    by simp
  from res have bound: "length (yielded (fst ?run)) \<le> 6" by blast
  from six fin after bound show ?thesis by (intro conjI) assumption+
qed

text \<open>
  C5. In any state a pair's conference can reach from the draw, if it is not complete
  and, for the next slot, text generation succeeds while image generation returns an
  error, then \<open>advance\<close> returns that slot as generated, with the text, no image and
  \<open>usedFallback\<close>, and the next slot becomes the next one to resolve. Every subsequent
  slot of the pair is then advanced as usual: the remaining calls, given their text,
  each return their slot generated, in order, the conference completes, and the slot
  resolved by the fallback is still there.
\<close>

theorem image_failure_falls_back:
  assumes "pairing session0 = Some prs" and "pairOf prs pid = Some (a, b)"
    and "conferences session0 pid = None"
    and "advanceAll gws0 session0 pid = (rs0, session, calls0)"
    and "\<not> isComplete (conferenceOf session pid a b)"
    and "\<forall>ctx. \<exists>t. generateText gw ctx = Inr t"
    and "\<forall>ctx assets. \<exists>e. generateImage gw ctx assets = Inl e"
    and "advance gw session pid = (r, session', calls)"
    and "\<forall>g \<in> set gws. \<forall>ctx. \<exists>t. generateText g ctx = Inr t"
    and "Suc (nextIndex (conferenceOf session pid a b)) + length gws = 6"
    and "advanceAll gws session' pid = (rs, session'', calls')"
  shows "(\<exists>slot art. r = Inr slot \<and> status slot = Generated \<and> artifact slot = Some art
            \<and> usedFallback art \<and> image art = None
            \<and> generateText gw (contextFor a b slot) = Inr (artifactText art)
            \<and> conferenceOf session' pid a b ! nextIndex (conferenceOf session pid a b) = slot
            \<and> conferenceOf session'' pid a b ! nextIndex (conferenceOf session pid a b) = slot)
     \<and> nextIndex (conferenceOf session' pid a b) = Suc (nextIndex (conferenceOf session pid a b))
     \<and> length rs = length gws
     \<and> (\<forall>j < length gws. \<exists>slot. rs ! j = Inr slot \<and> status slot = Generated
           \<and> roundNumber slot = (Suc (nextIndex (conferenceOf session pid a b)) + j) div 2
           \<and> speaker slot
               = (if even (Suc (nextIndex (conferenceOf session pid a b)) + j) then a else b))
     \<and> isComplete (conferenceOf session'' pid a b)"
proof -
  let ?conf = "conferenceOf session pid a b"
  have inv0: "resolvedUpTo a b 0 (conferenceOf session0 pid a b)"
    using assms(3) newConference_resolved by (simp add: conferenceOf_def)
  from advanceAll_preserves [OF assms(1,2) inv0 assms(4)]
  obtain k where p: "pairing session = Some prs" and inv: "resolvedUpTo a b k ?conf"
    by blast
  have k6: "k < 6"
  proof (rule ccontr)
    assume "\<not> k < 6"
    then have "k = 6" using inv by (simp add: resolvedUpTo_def)
    then show False using resolved_complete inv assms(5) by simp
  qed
  have nk: "nextIndex ?conf = k" by (rule resolved_nextIndex [OF inv])
  let ?ctx = "contextFor a b (?conf ! k)"
  obtain t where t: "generateText gw ?ctx = Inr t" using assms(6) by blast
  obtain e where e: "generateImage gw ?ctx (referenceAssets a b) = Inl e" using assms(7) by blast
  let ?art = "\<lparr>artifactText = t, image = None, usedFallback = True\<rparr>"
  let ?slot = "(?conf ! k)\<lparr>status := Generated, artifact := Some ?art\<rparr>"
  have a1: "advance gw session pid
      = (Inr ?slot, storeSlot session pid ?conf k ?slot,
         [TextCall ?ctx, ImageCall ?ctx (referenceAssets a b)])"
    using advance_generated [OF p assms(2) inv k6 t] e by (simp add: artifactOf_def)
  then have r: "r = Inr ?slot" and s': "session' = storeSlot session pid ?conf k ?slot"
    using assms(8) by simp_all
  have len6: "length ?conf = 6" using inv by (simp add: resolvedUpTo_def)
  have p': "pairing session' = Some prs" using p s' by simp
  have inv': "resolvedUpTo a b (Suc k) (conferenceOf session' pid a b)"
    using resolved_generated [OF inv k6] s' by simp
  have n: "Suc k + length gws = 6" using assms(10) nk by simp
  note run = advanceAll_in_order [OF p' assms(2) inv' n assms(9,11)]
  have here': "conferenceOf session' pid a b ! k = ?slot"
    using s' len6 k6 by simp
  have here'': "conferenceOf session'' pid a b ! k = ?slot"
    using run here' by simp
  have first: "\<exists>slot art. r = Inr slot \<and> status slot = Generated \<and> artifact slot = Some art
            \<and> usedFallback art \<and> image art = None
            \<and> generateText gw (contextFor a b slot) = Inr (artifactText art)
            \<and> conferenceOf session' pid a b ! k = slot
            \<and> conferenceOf session'' pid a b ! k = slot"
    using r t here' here'' by (intro exI [of _ ?slot] exI [of _ ?art]) simp
  have nk': "nextIndex (conferenceOf session' pid a b) = Suc k"
    by (rule resolved_nextIndex [OF inv'])
  have rest: "\<forall>j < length gws. \<exists>slot. rs ! j = Inr slot \<and> status slot = Generated
           \<and> roundNumber slot = (Suc k + j) div 2
           \<and> speaker slot = (if even (Suc k + j) then a else b)"
  proof (intro allI impI)
    fix j assume "j < length gws"
    with run obtain slot t' where
      "rs ! j = Inr slot \<and> roundNumber slot = (Suc k + j) div 2
        \<and> speaker slot = (if even (Suc k + j) then a else b) \<and> status slot = Generated
        \<and> generateText (gws ! j) (contextFor a b slot) = Inr t'
        \<and> artifact slot = Some (artifactOf t'
              (generateImage (gws ! j) (contextFor a b slot) (referenceAssets a b)))
        \<and> conferenceOf session'' pid a b ! (Suc k + j) = slot"
      by (metis (no_types, lifting))
    then show "\<exists>slot. rs ! j = Inr slot \<and> status slot = Generated
           \<and> roundNumber slot = (Suc k + j) div 2
           \<and> speaker slot = (if even (Suc k + j) then a else b)"
      by auto
  qed
  have complete: "isComplete (conferenceOf session'' pid a b)"
    using run resolved_complete by blast
  have lrs: "length rs = length gws" using run by simp
  show ?thesis
    unfolding nk using first nk' lrs rest complete by (intro conjI) assumption+
qed

theorem image_failure_falls_back_witness:
  "(\<exists>slot. fst (advance imageRefused (fst (snd (advanceAll [talkative] sampleSession Pair1))) Pair1)
        = Inr slot
      \<and> status slot = Generated
      \<and> artifact slot
          = Some \<lparr>artifactText = ''oleg taunts bohdan'', image = None, usedFallback = True\<rparr>)
   \<and> nextIndex (conferenceOf (fst (snd (advanceAll [talkative] sampleSession Pair1))) Pair1
         (sampleFighter ''bohdan'') (sampleFighter ''oleg'')) = 1
   \<and> length (fst (advanceAll [talkative, imageRefused, talkative, talkative]
         (fst (snd (advance imageRefused (fst (snd (advanceAll [talkative] sampleSession Pair1))) Pair1)))
         Pair1)) = 4
   \<and> isComplete (conferenceOf
         (fst (snd (advanceAll [talkative, imageRefused, talkative, talkative]
            (fst (snd (advance imageRefused (fst (snd (advanceAll [talkative] sampleSession Pair1))) Pair1)))
            Pair1)))
         Pair1 (sampleFighter ''bohdan'') (sampleFighter ''oleg''))"
proof -
  let ?a = "sampleFighter ''bohdan''" and ?b = "sampleFighter ''oleg''"
  let ?h = "advanceAll [talkative] sampleSession Pair1"
  let ?s = "fst (snd ?h)"
  let ?step = "advance imageRefused ?s Pair1"
  let ?s' = "fst (snd ?step)"
  let ?gws = "[talkative, imageRefused, talkative, talkative]"
  let ?run = "advanceAll ?gws ?s' Pair1"
  have p: "pairing sampleSession = Some samplePairing" by (simp add: sampleSession_def)
  have q: "pairOf samplePairing Pair1 = Some (?a, ?b)"
    by (simp add: pairOf_def samplePairing_def)
  have c: "conferences sampleSession Pair1 = None" by (simp add: sampleSession_def)
  have h: "?h = (fst ?h, ?s, snd (snd ?h))" by simp
  have nk: "nextIndex (conferenceOf ?s Pair1 ?a ?b) = 1" by code_simp
  have nc: "\<not> isComplete (conferenceOf ?s Pair1 ?a ?b)" by code_simp
  have t: "\<forall>ctx. \<exists>t. generateText imageRefused ctx = Inr t"
    by (simp add: talkative_def imageRefused_def)
  have i: "\<forall>ctx assets. \<exists>e. generateImage imageRefused ctx assets = Inl e"
    by (simp add: talkative_def imageRefused_def)
  have st: "?step = (fst ?step, ?s', snd (snd ?step))" by simp
  have ts: "\<forall>g \<in> set ?gws. \<forall>ctx. \<exists>t. generateText g ctx = Inr t"
    by (simp add: talkative_def imageRefused_def)
  have n: "Suc (nextIndex (conferenceOf ?s Pair1 ?a ?b)) + length ?gws = 6"
    using nk by simp
  have ru: "?run = (fst ?run, fst (snd ?run), snd (snd ?run))" by simp
  note res = image_failure_falls_back [OF p q c h nc t i st ts n ru]
  have said: "generateText imageRefused ctx
      = Inr (code (ctxSpeaker ctx) @ '' taunts '' @ code (ctxOpponent ctx))" for ctx
    by (simp add: talkative_def imageRefused_def)
  have fs: "fst ?step = Inr \<lparr>roundNumber = 0, speaker = ?b, status = Generated,
      artifact = Some \<lparr>artifactText = ''oleg taunts bohdan'', image = None, usedFallback = True\<rparr>\<rparr>"
    by code_simp
  have sp: "contextFor ?a ?b slot = \<lparr>ctxSpeaker = ?b, ctxOpponent = ?a, ctxRound = 0\<rparr>"
    if "fst ?step = Inr slot" for slot
    using that fs by (auto simp: contextFor_def sampleFighter_def)
  from res obtain slot art where sl: "fst ?step = Inr slot" "status slot = Generated"
    "artifact slot = Some art" "usedFallback art" "image art = None"
    "generateText imageRefused (contextFor ?a ?b slot) = Inr (artifactText art)"
    by blast
  have "artifactText art = ''oleg taunts bohdan''"
    using sl(6) sp [OF sl(1)] by (simp add: said sampleFighter_def)
  then have art: "art = \<lparr>artifactText = ''oleg taunts bohdan'', image = None, usedFallback = True\<rparr>"
    using sl(4,5) by (cases art) simp
  have first: "\<exists>slot. fst ?step = Inr slot \<and> status slot = Generated
      \<and> artifact slot = Some \<lparr>artifactText = ''oleg taunts bohdan'', image = None, usedFallback = True\<rparr>"
    using sl(1,2,3) art by blast
  from res have "length (fst ?run) = length ?gws"
    and "isComplete (conferenceOf (fst (snd ?run)) Pair1 ?a ?b)" by blast+
  with first nk show ?thesis by simp
qed






end
